theory Spec2Isabelle
  imports Complex_Main
begin

section \<open>JavaScript strings\<close>

text \<open>
  A JavaScript string is modelled as a \<^typ>\<open>string\<close>, one \<^typ>\<open>char\<close> per code unit, which
  covers the code units up to 255. The content of a file is the text that \<^verbatim>\<open>fs.readFile\<close>
  with the encoding \<^verbatim>\<open>utf-8\<close> gives; for ASCII text these are also the bytes of the file.
\<close>

definition LF :: char where
  "LF = CHR 0x0A"

definition CR :: char where
  "CR = CHR 0x0D"

text \<open>\<^verbatim>\<open>s.startsWith(p)\<close>\<close>

fun startsWith :: "string \<Rightarrow> string \<Rightarrow> bool" where
  "startsWith s [] = True"
| "startsWith [] (c # p) = False"
| "startsWith (x # s) (c # p) = (x = c \<and> startsWith s p)"

text \<open>\<^verbatim>\<open>s.indexOf(p)\<close>, with \<open>None\<close> for -1, and \<^verbatim>\<open>s.includes(p)\<close>.\<close>

fun indexOf :: "string \<Rightarrow> string \<Rightarrow> nat option" where
  "indexOf [] p = (if p = [] then Some 0 else None)"
| "indexOf (x # s) p =
     (if startsWith (x # s) p then Some 0 else map_option Suc (indexOf s p))"

definition str_includes :: "string \<Rightarrow> string \<Rightarrow> bool" where
  "str_includes s p = (indexOf s p \<noteq> None)"

text \<open>\<^verbatim>\<open>s.split(sep)\<close> for a one-character separator: never the empty list.\<close>

fun split :: "char \<Rightarrow> string \<Rightarrow> string list" where
  "split sep [] = [[]]"
| "split sep (c # s) =
     (if c = sep then [] # split sep s
      else (case split sep s of l # ls \<Rightarrow> (c # l) # ls | [] \<Rightarrow> [[c]]))"

text \<open>\<^verbatim>\<open>xs.join(sep)\<close>\<close>

fun join :: "string \<Rightarrow> string list \<Rightarrow> string" where
  "join sep [] = []"
| "join sep [l] = l"
| "join sep (l # m # ls) = l @ sep @ join sep (m # ls)"

section \<open>Node's path module (POSIX)\<close>

text \<open>
  The path functions the server calls, after the POSIX implementation of Node's
  \<^verbatim>\<open>path\<close> module: a path is cut at \<^verbatim>\<open>/\<close>, empty and \<^verbatim>\<open>.\<close> segments are dropped
  and \<^verbatim>\<open>..\<close> removes the segment before it.
\<close>

definition isAbsolute :: "string \<Rightarrow> bool" where
  "isAbsolute p = (case p of [] \<Rightarrow> False | c # _ \<Rightarrow> c = CHR ''/'')"

text \<open>
  Node's \<^verbatim>\<open>normalizeString\<close> on the list of segments; \<open>res\<close> holds the segments kept so
  far, last one first.
\<close>

fun normalizeSegments :: "bool \<Rightarrow> string list \<Rightarrow> string list \<Rightarrow> string list" where
  "normalizeSegments allowAboveRoot res [] = rev res"
| "normalizeSegments allowAboveRoot res (s # segs) =
     (if s = [] \<or> s = ''.'' then normalizeSegments allowAboveRoot res segs
      else if s = ''..'' then
        (case res of
           r # rs \<Rightarrow>
             if r = ''..'' then
               normalizeSegments allowAboveRoot (if allowAboveRoot then s # res else res) segs
             else normalizeSegments allowAboveRoot rs segs
         | [] \<Rightarrow> normalizeSegments allowAboveRoot (if allowAboveRoot then [s] else []) segs)
      else normalizeSegments allowAboveRoot (s # res) segs)"

definition normalizeString :: "string \<Rightarrow> bool \<Rightarrow> string" where
  "normalizeString p allowAboveRoot =
     join ''/'' (normalizeSegments allowAboveRoot [] (split (CHR ''/'') p))"

text \<open>\<^verbatim>\<open>path.normalize(p)\<close>\<close>

definition path_normalize :: "string \<Rightarrow> string" where
  "path_normalize p =
     (if p = [] then ''.''
      else
        let absolute = (hd p = CHR ''/'');
            trailingSeparator = (last p = CHR ''/'');
            q = normalizeString p (\<not> absolute)
        in if q = [] then (if absolute then ''/'' else if trailingSeparator then ''./'' else ''.'')
           else (if absolute then ''/'' else []) @ q @ (if trailingSeparator then ''/'' else []))"

text \<open>
  \<^verbatim>\<open>path.resolve(...args)\<close>: the arguments are taken from the right until one is absolute,
  the process's working directory \<open>pcwd\<close> coming last.
\<close>

fun resolveArgs :: "string list \<Rightarrow> string \<Rightarrow> bool \<Rightarrow> string \<times> bool" where
  "resolveArgs [] resolvedPath resolvedAbsolute = (resolvedPath, resolvedAbsolute)"
| "resolveArgs (a # as) resolvedPath resolvedAbsolute =
     (if resolvedAbsolute then (resolvedPath, resolvedAbsolute)
      else if a = [] then resolveArgs as resolvedPath resolvedAbsolute
      else resolveArgs as (a @ ''/'' @ resolvedPath) (hd a = CHR ''/''))"

definition path_resolve :: "string \<Rightarrow> string list \<Rightarrow> string" where
  "path_resolve pcwd args =
     (case resolveArgs (rev args @ [pcwd]) [] False of
        (resolvedPath, resolvedAbsolute) \<Rightarrow>
          let q = normalizeString resolvedPath (\<not> resolvedAbsolute)
          in if resolvedAbsolute then ''/'' @ q else if q = [] then ''.'' else q)"

text \<open>\<^verbatim>\<open>path.join(...args)\<close>\<close>

definition path_join :: "string list \<Rightarrow> string" where
  "path_join args =
     (let joined = join ''/'' (filter (\<lambda>a. a \<noteq> []) args)
      in if joined = [] then ''.'' else path_normalize joined)"

text \<open>
  \<^verbatim>\<open>path.dirname(p)\<close>: the scan from the right for the last separator that follows a
  non-separator, never looking at index 0. \<open>dirnameEnd\<close> walks the reversed tail of the path
  and returns the index \<open>end\<close>.
\<close>

fun dirnameEnd :: "string \<Rightarrow> bool \<Rightarrow> nat option" where
  "dirnameEnd [] matchedSlash = None"
| "dirnameEnd (c # r) matchedSlash =
     (if c = CHR ''/'' then
        (if \<not> matchedSlash then Some (length r + 1) else dirnameEnd r matchedSlash)
      else dirnameEnd r False)"

definition path_dirname :: "string \<Rightarrow> string" where
  "path_dirname p =
     (if p = [] then ''.''
      else
        let hasRoot = (hd p = CHR ''/'')
        in case dirnameEnd (rev (tl p)) True of
             None \<Rightarrow> (if hasRoot then ''/'' else ''.'')
           | Some e \<Rightarrow> if hasRoot \<and> e = 1 then ''//'' else take e p)"

section \<open>PathGuard: validatePath\<close>

text \<open>
  What the operating system contributes: the home directory, the working directory of the
  process, and \<^verbatim>\<open>fs.realpath\<close>, which is \<open>None\<close> where the call throws (the path does
  not exist).
\<close>

record os_env =
  homedir :: string
  pcwd :: string
  realpath :: "string \<Rightarrow> string option"

datatype fs_error =
    PermissionDeniedError string
  | FileNotFoundError
  | Error string

definition normalizePath :: "string \<Rightarrow> string" where
  "normalizePath p = path_normalize p"

definition expandHome :: "os_env \<Rightarrow> string \<Rightarrow> string" where
  "expandHome env filepath =
     (if startsWith filepath ''~/'' \<or> filepath = ''~''
      then path_join [homedir env, drop 1 filepath]
      else filepath)"

text \<open>\<^verbatim>\<open>allowedDirectories.some((dir) => p.startsWith(dir))\<close>\<close>

definition isAllowed :: "string list \<Rightarrow> string \<Rightarrow> bool" where
  "isAllowed allowedDirectories p = list_ex (\<lambda>dir. startsWith p dir) allowedDirectories"

text \<open>
  The first statements of \<^verbatim>\<open>validatePath\<close>: the requested path, with its home marker
  expanded, made absolute against the working directory.
\<close>

definition absolutePath :: "os_env \<Rightarrow> string \<Rightarrow> string \<Rightarrow> string" where
  "absolutePath env workingDirectory requestedPath =
     (let expandedPath = expandHome env requestedPath
      in if isAbsolute expandedPath then path_resolve (pcwd env) [expandedPath]
         else path_resolve (pcwd env) [workingDirectory, expandedPath])"

text \<open>The module function \<^verbatim>\<open>validatePath\<close> of the filesystem package.\<close>

definition validatePath :: "os_env \<Rightarrow> string \<Rightarrow> string list \<Rightarrow> string \<Rightarrow> fs_error + string" where
  "validatePath env requestedPath allowedDirectories workingDirectory =
     (let absolute = absolutePath env workingDirectory requestedPath;
          normalizedRequested = normalizePath absolute
      in if \<not> isAllowed allowedDirectories normalizedRequested
         then Inl (PermissionDeniedError ''access'')
         else
           (case realpath env absolute of
              Some realPath \<Rightarrow>
                if \<not> isAllowed allowedDirectories (normalizePath realPath)
                then Inl (PermissionDeniedError
                            ''access (symlink target outside allowed directories)'')
                else Inr realPath
            | None \<Rightarrow>
                let parentDir = path_dirname absolute
                in (case realpath env parentDir of
                      Some realParentPath \<Rightarrow>
                        if \<not> isAllowed allowedDirectories (normalizePath realParentPath)
                        then Inl (PermissionDeniedError
                                    ''access (parent directory outside allowed directories)'')
                        else Inr absolute
                    | None \<Rightarrow> Inl FileNotFoundError)))"

text \<open>
  The server script's own \<^verbatim>\<open>validatePath\<close>, over its global list of allowed directories.
  Its \<^verbatim>\<open>catch\<close> after the real-path check receives every exception of the \<^verbatim>\<open>try\<close>
  block, the one thrown for a symlink target outside the allowed directories included, and
  the inner \<^verbatim>\<open>catch\<close> turns every failure of the parent check into one message.
\<close>

definition validatePath_server :: "os_env \<Rightarrow> string list \<Rightarrow> string \<Rightarrow> fs_error + string" where
  "validatePath_server env allowedDirectories requestedPath =
     (let absolute = absolutePath env (pcwd env) requestedPath;
          normalizedRequested = normalizePath absolute
      in if \<not> isAllowed allowedDirectories normalizedRequested
         then Inl (Error (''Access denied - path outside allowed directories: '' @ absolute
                          @ '' not in '' @ join '', '' allowedDirectories))
         else
           (case (case realpath env absolute of
                    Some realPath \<Rightarrow>
                      if \<not> isAllowed allowedDirectories (normalizePath realPath)
                      then None else Some realPath
                  | None \<Rightarrow> None) of
              Some realPath \<Rightarrow> Inr realPath
            | None \<Rightarrow>
                let parentDir = path_dirname absolute
                in (case realpath env parentDir of
                      Some realParentPath \<Rightarrow>
                        if \<not> isAllowed allowedDirectories (normalizePath realParentPath)
                        then Inl (Error (''Parent directory does not exist: '' @ parentDir))
                        else Inr absolute
                    | None \<Rightarrow> Inl (Error (''Parent directory does not exist: '' @ parentDir)))))"

section \<open>PatchEngine: applyFileEdits\<close>

text \<open>The characters that \<^verbatim>\<open>\s\<close> and \<^verbatim>\<open>trim\<close> take for white space, among the 256 of the model.\<close>

definition isWhiteSpace :: "char \<Rightarrow> bool" where
  "isWhiteSpace c =
     (c \<in> set [CHR 0x09, CHR 0x0A, CHR 0x0B, CHR 0x0C, CHR 0x0D, CHR 0x20, CHR 0xA0])"

definition trimStart :: "string \<Rightarrow> string" where
  "trimStart s = dropWhile isWhiteSpace s"

definition trim :: "string \<Rightarrow> string" where
  "trim s = rev (dropWhile isWhiteSpace (rev (dropWhile isWhiteSpace s)))"

text \<open>\<^verbatim>\<open>line.match(/^\s*/)?.[0] || ''\<close>\<close>

definition leadingWhitespace :: "string \<Rightarrow> string" where
  "leadingWhitespace s = takeWhile isWhiteSpace s"

text \<open>\<^verbatim>\<open>text.replace(/\r\n/g, '\n')\<close>\<close>

fun normalizeLineEndings :: "string \<Rightarrow> string" where
  "normalizeLineEndings (c # d # s) =
     (if c = CR \<and> d = LF then LF # normalizeLineEndings s
      else c # normalizeLineEndings (d # s))"
| "normalizeLineEndings s = s"

text \<open>
  Whether a text contains a carriage return followed by a line feed, the sequence that
  \<^verbatim>\<open>normalizeLineEndings\<close> replaces.
\<close>

fun hasCRLF :: "string \<Rightarrow> bool" where
  "hasCRLF (c # d # s) = ((c = CR \<and> d = LF) \<or> hasCRLF (d # s))"
| "hasCRLF s = False"

text \<open>
  \<^verbatim>\<open>s.replace(pattern, replacement)\<close> with a string pattern replaces the first occurrence,
  and the replacement text is a template: \<^verbatim>\<open>$$\<close> stands for a dollar sign, \<^verbatim>\<open>$&\<close> for
  the matched text, \<^verbatim>\<open>$`\<close> for the text before it and \<^verbatim>\<open>$'\<close> for the text after it.
  There are no capture groups, so any other \<^verbatim>\<open>$\<close> stands for itself.
\<close>

fun getSubstitution :: "string \<Rightarrow> string \<Rightarrow> string \<Rightarrow> string \<Rightarrow> string" where
  "getSubstitution matched preceding following (c # d # r) =
     (if c = CHR ''$'' then
        (if d = CHR ''$'' then CHR ''$'' # getSubstitution matched preceding following r
         else if d = CHR ''&'' then matched @ getSubstitution matched preceding following r
         else if d = CHR 0x60 then preceding @ getSubstitution matched preceding following r
         else if d = CHR 0x27 then following @ getSubstitution matched preceding following r
         else c # getSubstitution matched preceding following (d # r))
      else c # getSubstitution matched preceding following (d # r))"
| "getSubstitution matched preceding following r = r"

definition str_replace :: "string \<Rightarrow> string \<Rightarrow> string \<Rightarrow> string" where
  "str_replace s pat replacement =
     (case indexOf s pat of
        None \<Rightarrow> s
      | Some i \<Rightarrow>
          let preceding = take i s; following = drop (i + length pat) s
          in preceding @ getSubstitution pat preceding following replacement @ following)"

record edit =
  oldText :: string
  newText :: string

text \<open>
  The comparison of one window of content lines with the lines of \<^verbatim>\<open>oldText\<close>; the window
  has as many lines as \<^verbatim>\<open>oldLines\<close>.
\<close>

definition isMatch :: "string list \<Rightarrow> string list \<Rightarrow> bool" where
  "isMatch oldLines potentialMatch =
     list_all (\<lambda>(oldLine, contentLine). trim oldLine = trim contentLine)
       (zip oldLines potentialMatch)"

lemma startsWith_length: "startsWith s p \<Longrightarrow> length p \<le> length s"
  by (induction s p rule: startsWith.induct) auto

lemma indexOf_length: "indexOf s p = Some i \<Longrightarrow> i + length p \<le> length s"
proof (induction s arbitrary: i)
  case Nil
  then show ?case by (simp split: if_splits)
next
  case (Cons x s)
  show ?case
  proof (cases "startsWith (x # s) p")
    case True
    with Cons.prems startsWith_length [OF True] show ?thesis by simp
  next
    case False
    with Cons.prems obtain j where "indexOf s p = Some j" "i = Suc j" by auto
    with Cons.IH show ?thesis by fastforce
  qed
qed

lemma str_includes_length: "str_includes s p \<Longrightarrow> length p \<le> length s"
  using indexOf_length by (fastforce simp: str_includes_def)

text \<open>
  The loop \<^verbatim>\<open>for (let i = 0; i <= contentLines.length - oldLines.length; i++)\<close>, from
  index \<open>i\<close> on: the first window that matches.
\<close>

function findWindow :: "string list \<Rightarrow> string list \<Rightarrow> nat \<Rightarrow> nat option" where
  "findWindow oldLines contentLines i =
     (if i + length oldLines \<le> length contentLines then
        (if isMatch oldLines (take (length oldLines) (drop i contentLines)) then Some i
         else findWindow oldLines contentLines (Suc i))
      else None)"
  by pat_completeness auto
termination
  by (relation "measure (\<lambda>(oldLines, contentLines, i). Suc (length contentLines) - i)") auto

declare findWindow.simps [simp del]

text \<open>The line that replaces line \<open>j\<close> of the window, for line \<open>j\<close> of the new text.\<close>

definition reindent :: "string \<Rightarrow> string list \<Rightarrow> nat \<Rightarrow> string \<Rightarrow> string" where
  "reindent originalIndent oldLines j line =
     (if j = 0 then originalIndent @ trimStart line
      else
        let oldIndent = (if j < length oldLines then leadingWhitespace (oldLines ! j) else []);
            newIndent = leadingWhitespace line
        in if oldIndent \<noteq> [] \<and> newIndent \<noteq> []
           then originalIndent @ replicate (length newIndent - length oldIndent) (CHR '' '')
                @ trimStart line
           else line)"

text \<open>One turn of the loop over the edits; \<open>None\<close> is the \<^verbatim>\<open>throw\<close>.\<close>

definition applyEdit :: "string \<Rightarrow> edit \<Rightarrow> string option" where
  "applyEdit modifiedContent e =
     (let normalizedOld = normalizeLineEndings (oldText e);
          normalizedNew = normalizeLineEndings (newText e)
      in if str_includes modifiedContent normalizedOld
         then Some (str_replace modifiedContent normalizedOld normalizedNew)
         else
           let oldLines = split LF normalizedOld;
               contentLines = split LF modifiedContent
           in (case findWindow oldLines contentLines 0 of
                 None \<Rightarrow> None
               | Some i \<Rightarrow>
                   let originalIndent = leadingWhitespace (contentLines ! i);
                       newLines = map (\<lambda>(j, line). reindent originalIndent oldLines j line)
                                    (enumerate 0 (split LF normalizedNew))
                   in Some (join [LF] (take i contentLines @ newLines
                                        @ drop (i + length oldLines) contentLines))))"

fun applyEdits :: "string \<Rightarrow> edit list \<Rightarrow> fs_error + string" where
  "applyEdits modifiedContent [] = Inr modifiedContent"
| "applyEdits modifiedContent (e # es) =
     (case applyEdit modifiedContent e of
        None \<Rightarrow> Inl (Error (''Could not find exact match for edit:'' @ [LF] @ oldText e))
      | Some c \<Rightarrow> applyEdits c es)"

text \<open>
  \<^verbatim>\<open>createTwoFilesPatch\<close> belongs to the \<^verbatim>\<open>diff\<close> package and is a parameter \<open>patch\<close> of
  the model, with its six arguments.
\<close>

type_synonym patcher = "string \<Rightarrow> string \<Rightarrow> string \<Rightarrow> string \<Rightarrow> string \<Rightarrow> string \<Rightarrow> string"

definition createUnifiedDiff :: "patcher \<Rightarrow> string \<Rightarrow> string \<Rightarrow> string \<Rightarrow> string" where
  "createUnifiedDiff patch originalContent newContent filepath =
     (let normalizedOriginal = normalizeLineEndings originalContent;
          normalizedNew = normalizeLineEndings newContent
      in patch filepath filepath normalizedOriginal normalizedNew ''original'' ''modified'')"

text \<open>\<^verbatim>\<open>while (diff.includes('`'.repeat(numBackticks))) numBackticks++\<close>\<close>

function countBackticks :: "string \<Rightarrow> nat \<Rightarrow> nat" where
  "countBackticks diff numBackticks =
     (if str_includes diff (replicate numBackticks (CHR 0x60))
      then countBackticks diff (Suc numBackticks) else numBackticks)"
  by pat_completeness auto
termination
proof (relation "measure (\<lambda>(diff, n). Suc (length diff) - n)")
  show "wf (measure (\<lambda>(diff, n). Suc (length diff) - n))" by simp
next
  fix diff :: string and numBackticks :: nat
  assume "str_includes diff (replicate numBackticks (CHR 0x60))"
  then have "numBackticks \<le> length diff" using str_includes_length by fastforce
  then show "((diff, Suc numBackticks), (diff, numBackticks))
               \<in> measure (\<lambda>(diff, n). Suc (length diff) - n)" by simp
qed

declare countBackticks.simps [simp del]

definition formatDiff :: "string \<Rightarrow> string" where
  "formatDiff diff =
     (let numBackticks = countBackticks diff 3
      in replicate numBackticks (CHR 0x60) @ ''diff'' @ [LF] @ diff
         @ replicate numBackticks (CHR 0x60) @ [LF, LF])"

text \<open>
  The files of the disk: the content of each path that can be read, and the paths where
  \<^verbatim>\<open>fs.writeFile\<close> succeeds.
\<close>

record filesystem =
  files :: "string \<rightharpoonup> string"
  writable :: "string set"

definition readFile :: "filesystem \<Rightarrow> string \<Rightarrow> fs_error + string" where
  "readFile fs filePath =
     (case files fs filePath of None \<Rightarrow> Inl (Error ''ENOENT'') | Some raw \<Rightarrow> Inr raw)"

definition writeFile :: "filesystem \<Rightarrow> string \<Rightarrow> string \<Rightarrow> fs_error + filesystem" where
  "writeFile fs filePath content =
     (if filePath \<in> writable fs then Inr (fs\<lparr>files := (files fs)(filePath \<mapsto> content)\<rparr>)
      else Inl (Error ''EACCES''))"

text \<open>
  \<^verbatim>\<open>applyFileEdits\<close> returns what the promise settles to, and the disk after the call.
\<close>

definition applyFileEdits ::
  "patcher \<Rightarrow> filesystem \<Rightarrow> string \<Rightarrow> edit list \<Rightarrow> bool \<Rightarrow> (fs_error + string) \<times> filesystem" where
  "applyFileEdits patch fs filePath edits dryRun =
     (case readFile fs filePath of
        Inl err \<Rightarrow> (Inl err, fs)
      | Inr raw \<Rightarrow>
          let content = normalizeLineEndings raw
          in (case applyEdits content edits of
                Inl err \<Rightarrow> (Inl err, fs)
              | Inr modifiedContent \<Rightarrow>
                  let diff = createUnifiedDiff patch content modifiedContent filePath;
                      formattedDiff = formatDiff diff
                  in if \<not> dryRun then
                       (case writeFile fs filePath modifiedContent of
                          Inl err \<Rightarrow> (Inl err, fs)
                        | Inr fs' \<Rightarrow> (Inr formattedDiff, fs'))
                     else (Inr formattedDiff, fs)))"

section \<open>StreamReader: tailFile and headFile\<close>

text \<open>
  Both readers read the bytes of the file in chunks of 1024 and turn each chunk into text
  on its own, with \<^verbatim>\<open>chunk.slice(0, bytesRead).toString('utf-8')\<close>. That decoding is the
  parameter \<open>decode\<close>; on ASCII bytes it is the identity, and the properties below are about
  ASCII files. \<^verbatim>\<open>fileHandle.read(chunk, 0, size, position)\<close> gives the bytes from \<open>position\<close>
  on, \<open>size\<close> of them, fewer at the end of the file. The file does not change during a call.
\<close>

definition CHUNK_SIZE :: nat where
  "CHUNK_SIZE = 1024"

definition readChunk :: "string \<Rightarrow> nat \<Rightarrow> nat \<Rightarrow> string" where
  "readChunk fileData length' position = take length' (drop position fileData)"

text \<open>
  The inner loop of \<^verbatim>\<open>tailFile\<close>, which walks the chunk's lines from the last one and puts
  each in front of \<open>lines\<close> while lines are still wanted; its first argument is the reversed
  list of the chunk's lines.
\<close>

fun unshiftLines :: "string list \<Rightarrow> string list \<Rightarrow> nat \<Rightarrow> int \<Rightarrow> string list \<times> nat" where
  "unshiftLines [] lines linesFound numLines = (lines, linesFound)"
| "unshiftLines (l # rest) lines linesFound numLines =
     (if int linesFound < numLines
      then unshiftLines rest (l # lines) (Suc linesFound) numLines
      else (lines, linesFound))"

text \<open>
  The loop \<^verbatim>\<open>while (position > 0 && linesFound < numLines)\<close>. \<^verbatim>\<open>split\<close> never returns an
  empty array, so the first line that is set aside when the chunk does not start the file
  always exists.
\<close>

function tailLoop ::
  "(string \<Rightarrow> string) \<Rightarrow> string \<Rightarrow> int \<Rightarrow> nat \<Rightarrow> string list \<Rightarrow> nat \<Rightarrow> string \<Rightarrow> string list" where
  "tailLoop decode fileData numLines position lines linesFound remainingText =
     (if position > 0 \<and> int linesFound < numLines then
        let size' = min CHUNK_SIZE position;
            position' = position - size';
            readData = readChunk fileData size' position'
        in if length readData = 0 then lines
           else
             let chunkText = decode readData @ remainingText;
                 chunkLines = split LF (normalizeLineEndings chunkText);
                 remainingText' = (if position' > 0 then hd chunkLines else remainingText);
                 chunkLines' = (if position' > 0 then tl chunkLines else chunkLines)
             in (case unshiftLines (rev chunkLines') lines linesFound numLines of
                   (lines', linesFound') \<Rightarrow>
                     tailLoop decode fileData numLines position' lines' linesFound'
                       remainingText')
      else lines)"
  by pat_completeness auto
termination
  by (relation "measure (\<lambda>(decode, fileData, numLines, position, rest). position)")
     (auto simp: CHUNK_SIZE_def)

declare tailLoop.simps [simp del]

definition tailFile ::
  "(string \<Rightarrow> string) \<Rightarrow> filesystem \<Rightarrow> string \<Rightarrow> int \<Rightarrow> fs_error + string" where
  "tailFile decode fs filePath numLines =
     (case files fs filePath of
        None \<Rightarrow> Inl (Error ''ENOENT'')
      | Some fileData \<Rightarrow>
          let fileSize = length fileData
          in if fileSize = 0 then Inr []
             else Inr (join [LF] (tailLoop decode fileData numLines fileSize [] 0 [])))"

text \<open>\<^verbatim>\<open>buffer.lastIndexOf('\n')\<close>, with \<open>None\<close> for -1.\<close>

fun lastIndexOfChar :: "char \<Rightarrow> string \<Rightarrow> nat option" where
  "lastIndexOfChar c [] = None"
| "lastIndexOfChar c (x # s) =
     (case lastIndexOfChar c s of
        Some i \<Rightarrow> Some (Suc i)
      | None \<Rightarrow> if x = c then Some 0 else None)"

text \<open>
  The inner loop of \<^verbatim>\<open>headFile\<close>: each complete line is pushed, and the loop is left as
  soon as enough lines are there.
\<close>

fun pushLines :: "string list \<Rightarrow> string list \<Rightarrow> int \<Rightarrow> string list" where
  "pushLines [] lines numLines = lines"
| "pushLines (l # rest) lines numLines =
     (if int (length (lines @ [l])) \<ge> numLines then lines @ [l]
      else pushLines rest (lines @ [l]) numLines)"

function headLoop ::
  "(string \<Rightarrow> string) \<Rightarrow> string \<Rightarrow> int \<Rightarrow> string list \<Rightarrow> string \<Rightarrow> nat \<Rightarrow> string list \<times> string" where
  "headLoop decode fileData numLines lines buffer bytesRead =
     (if int (length lines) < numLines then
        let readData = readChunk fileData 1024 bytesRead
        in if length readData = 0 then (lines, buffer)
           else
             let bytesRead' = bytesRead + length readData;
                 buffer' = buffer @ decode readData
             in (case lastIndexOfChar LF buffer' of
                   None \<Rightarrow> headLoop decode fileData numLines lines buffer' bytesRead'
                 | Some newLineIndex \<Rightarrow>
                     headLoop decode fileData numLines
                       (pushLines (split LF (take newLineIndex buffer')) lines numLines)
                       (drop (newLineIndex + 1) buffer') bytesRead')
      else (lines, buffer))"
  by pat_completeness auto
termination
  by (relation "measure (\<lambda>(decode, fileData, numLines, lines, buffer, bytesRead).
                            length fileData - bytesRead)")
     (auto simp: readChunk_def)

declare headLoop.simps [simp del]

definition headFile ::
  "(string \<Rightarrow> string) \<Rightarrow> filesystem \<Rightarrow> string \<Rightarrow> int \<Rightarrow> fs_error + string" where
  "headFile decode fs filePath numLines =
     (case files fs filePath of
        None \<Rightarrow> Inl (Error ''ENOENT'')
      | Some fileData \<Rightarrow>
          (case headLoop decode fileData numLines [] [] 0 of
             (lines, buffer) \<Rightarrow>
               Inr (join [LF] (if length buffer > 0 \<and> int (length lines) < numLines
                               then lines @ [buffer] else lines))))"

section \<open>The read_file tool\<close>

text \<open>
  The arguments of \<^verbatim>\<open>read_file\<close> as the schema parses them: \<^verbatim>\<open>tail\<close> and \<^verbatim>\<open>head\<close> are
  optional numbers.
\<close>

record ReadFileArgs =
  path :: string
  tail :: "int option"
  head :: "int option"

text \<open>
  The number behind a condition such as \<^verbatim>\<open>if (parsed.data.tail)\<close>, when the condition
  holds: the property is there and is not zero.
\<close>

definition truthy :: "int option \<Rightarrow> int option" where
  "truthy v = (case v of None \<Rightarrow> None | Some n \<Rightarrow> if n = 0 then None else Some n)"

text \<open>The case \<^verbatim>\<open>read_file\<close> of the server script's tool handlers; it returns the text.\<close>

definition read_file ::
  "(string \<Rightarrow> string) \<Rightarrow> os_env \<Rightarrow> string list \<Rightarrow> filesystem \<Rightarrow> ReadFileArgs
     \<Rightarrow> fs_error + string" where
  "read_file decode env allowedDirectories fs args =
     (case validatePath_server env allowedDirectories (path args) of
        Inl err \<Rightarrow> Inl err
      | Inr validPath \<Rightarrow>
          (case (truthy (head args), truthy (tail args)) of
             (Some h, Some t) \<Rightarrow>
               Inl (Error ''Cannot specify both head and tail parameters simultaneously'')
           | (None, Some t) \<Rightarrow> tailFile decode fs validPath t
           | (Some h, None) \<Rightarrow> headFile decode fs validPath h
           | (None, None) \<Rightarrow> readFile fs validPath))"

section \<open>Searcher: searchFiles\<close>

text \<open>
  A directory entry as \<^verbatim>\<open>readdir\<close> with \<^verbatim>\<open>withFileTypes\<close> gives it: its name, whether it is
  a directory, and what \<^verbatim>\<open>readdir\<close> of it gives in turn, \<open>None\<close> where that call throws.
\<close>

datatype dirent = Dirent (name: string) (isDirectory: bool) (readdir: "dirent list option")

text \<open>
  The parameters \<^verbatim>\<open>maxResults\<close> and \<^verbatim>\<open>timeout\<close> have the type \<^verbatim>\<open>number\<close>: a finite number,
  which need not be whole or positive, an infinity, or \<^verbatim>\<open>NaN\<close>.
\<close>

datatype js_number = Finite real | PosInfinity | NegInfinity | NaN

text \<open>\<^verbatim>\<open>n >= x\<close> for an array length \<open>n\<close>: false when \<open>x\<close> is \<^verbatim>\<open>NaN\<close>.\<close>

fun lengthAtLeast :: "nat \<Rightarrow> js_number \<Rightarrow> bool" where
  "lengthAtLeast n (Finite x) = (x \<le> real n)"
| "lengthAtLeast n PosInfinity = False"
| "lengthAtLeast n NegInfinity = True"
| "lengthAtLeast n NaN = False"

text \<open>
  The delay in milliseconds that \<^verbatim>\<open>setTimeout\<close> of Node gives a timer: the whole part of
  the number, and 1 for a number that is not between 1 and 2147483647.
\<close>

fun timerDelay :: "js_number \<Rightarrow> nat" where
  "timerDelay (Finite x) = (if 1 \<le> x \<and> x \<le> 2147483647 then nat \<lfloor>x\<rfloor> else 1)"
| "timerDelay PosInfinity = 1"
| "timerDelay NegInfinity = 1"
| "timerDelay NaN = 1"

text \<open>
  The arguments of \<^verbatim>\<open>searchFiles\<close>, and what it takes from elsewhere. The validator is
  optional and \<open>False\<close> stands for its exception. \<^verbatim>\<open>minimatch\<close> (with the option \<^verbatim>\<open>dot\<close>)
  and \<^verbatim>\<open>path.relative\<close> are library functions. The search waits in two places, for
  \<^verbatim>\<open>fs.readdir\<close> of a directory and for the validator of a path, and \<open>readdirTime\<close> and
  \<open>validateTime\<close> give the milliseconds that each wait takes.
\<close>

record search_params =
  rootPath :: string
  pattern :: string
  excludePatterns :: "string list"
  maxResults :: js_number
  timeout :: js_number
  validator :: "(string \<Rightarrow> bool) option"
  minimatch :: "string \<Rightarrow> string \<Rightarrow> bool"
  relative :: "string \<Rightarrow> string \<Rightarrow> string"
  readdirTime :: "string \<Rightarrow> nat"
  validateTime :: "string \<Rightarrow> nat"

text \<open>
  The array \<^verbatim>\<open>results\<close>, the milliseconds since the timer was started, and the abort
  signal: \<open>firedAt\<close> is \<open>None\<close> as long as \<^verbatim>\<open>abortController.signal.aborted\<close> is false, and from
  the moment the timer's callback has run it holds the number of results that were recorded
  at that moment.
\<close>

record search_state =
  results :: "string list"
  elapsed :: nat
  firedAt :: "nat option"

definition aborted :: "search_state \<Rightarrow> bool" where
  "aborted st = (firedAt st \<noteq> None)"

text \<open>
  An \<^verbatim>\<open>await\<close> that takes \<open>d\<close> milliseconds. The callback of the timer runs while the
  search waits, never in the middle of its synchronous code, so the signal is set during the
  first wait at whose end the delay of the timer has passed.
\<close>

definition await :: "search_params \<Rightarrow> nat \<Rightarrow> search_state \<Rightarrow> search_state" where
  "await P d st =
     st\<lparr>elapsed := elapsed st + d,
        firedAt := (if firedAt st = None \<and> timerDelay (timeout P) \<le> elapsed st + d
                    then Some (length (results st)) else firedAt st)\<rparr>"

text \<open>\<^verbatim>\<open>abortController.signal.aborted || results.length >= maxResults\<close>\<close>

definition limitReached :: "search_params \<Rightarrow> search_state \<Rightarrow> bool" where
  "limitReached P st = (aborted st \<or> lengthAtLeast (length (results st)) (maxResults P))"

text \<open>
  \<^verbatim>\<open>s.toLowerCase()\<close> on the code units of the model: a capital letter becomes the
  character 32 places further, which is the same character with bit 5 set.
\<close>

definition lowerChar :: "char \<Rightarrow> char" where
  "lowerChar c =
     (let n = (of_char c :: nat)
      in if (65 \<le> n \<and> n \<le> 90) \<or> (192 \<le> n \<and> n \<le> 222 \<and> n \<noteq> 215)
         then Char (digit0 c) (digit1 c) (digit2 c) (digit3 c) (digit4 c) True
                (digit6 c) (digit7 c)
         else c)"

definition toLowerCase :: "string \<Rightarrow> string" where
  "toLowerCase s = map lowerChar s"

definition shouldExclude :: "search_params \<Rightarrow> string \<Rightarrow> bool" where
  "shouldExclude P relativePath =
     list_ex (\<lambda>pat.
        let globPattern = (if str_includes pat ''*'' then pat else ''**/'' @ pat @ ''/**'')
        in minimatch P relativePath globPattern) (excludePatterns P)"

text \<open>
  The inner function \<^verbatim>\<open>search\<close> and its loop over the entries. The first component of
  the result is \<open>True\<close> when the call ends with an exception, which only \<^verbatim>\<open>readdir\<close> can
  raise outside the \<^verbatim>\<open>try\<close> block. Between the check at the head of the loop and the
  \<^verbatim>\<open>push\<close> lies the wait for the validator, when there is one, and no second check.
\<close>

fun search :: "search_params \<Rightarrow> string \<Rightarrow> dirent list option \<Rightarrow> search_state \<Rightarrow> bool \<times> search_state"
  and searchEntries ::
    "search_params \<Rightarrow> string \<Rightarrow> dirent list \<Rightarrow> search_state \<Rightarrow> bool \<times> search_state" where
  "search P currentPath None st =
     (if limitReached P st then (False, st)
      else (True, await P (readdirTime P currentPath) st))"
| "search P currentPath (Some ents) st =
     (if limitReached P st then (False, st)
      else searchEntries P currentPath ents (await P (readdirTime P currentPath) st))"
| "searchEntries P currentPath [] st = (False, st)"
| "searchEntries P currentPath (Dirent nm isDir sub # ents) st =
     (if limitReached P st then (False, st)
      else
        let fullPath = path_join [currentPath, nm];
            st1 = (case validator P of
                     None \<Rightarrow> st
                   | Some v \<Rightarrow> await P (validateTime P fullPath) st)
        in if (case validator P of None \<Rightarrow> False | Some v \<Rightarrow> \<not> v fullPath)
           then searchEntries P currentPath ents st1
           else if shouldExclude P (relative P (rootPath P) fullPath)
           then searchEntries P currentPath ents st1
           else
             let st2 = (if str_includes (toLowerCase nm) (toLowerCase (pattern P))
                        then st1\<lparr>results := results st1 @ [fullPath]\<rparr> else st1)
             in if isDir
                then searchEntries P currentPath ents (snd (search P fullPath sub st2))
                else searchEntries P currentPath ents st2)"

text \<open>The state in which \<^verbatim>\<open>searchFiles\<close> starts the timer, and the search from the root.\<close>

definition initialState :: search_state where
  "initialState = \<lparr>results = [], elapsed = 0, firedAt = None\<rparr>"

definition runSearch :: "search_params \<Rightarrow> dirent list option \<Rightarrow> bool \<times> search_state" where
  "runSearch P rootEntries = search P (rootPath P) rootEntries initialState"

definition searchFiles :: "search_params \<Rightarrow> dirent list option \<Rightarrow> fs_error + string list" where
  "searchFiles P rootEntries =
     (case runSearch P rootEntries of
        (True, st) \<Rightarrow> Inl (Error ''readdir'')
      | (False, st) \<Rightarrow> Inr (results st))"

text \<open>
  The server script has a \<^verbatim>\<open>searchFiles\<close> of its own, with neither a limit nor a timer:
  the same traversal without the checks, where every path goes through the script's
  \<^verbatim>\<open>validatePath\<close>, here \<open>validate\<close>. Of the parameters it reads the root, the pattern, the
  exclusions and the library functions.
\<close>

fun search_server ::
  "(string \<Rightarrow> bool) \<Rightarrow> search_params \<Rightarrow> string \<Rightarrow> dirent list option \<Rightarrow> string list
     \<Rightarrow> bool \<times> string list"
  and searchEntries_server ::
  "(string \<Rightarrow> bool) \<Rightarrow> search_params \<Rightarrow> string \<Rightarrow> dirent list \<Rightarrow> string list
     \<Rightarrow> bool \<times> string list" where
  "search_server validate P currentPath None found = (True, found)"
| "search_server validate P currentPath (Some ents) found =
     searchEntries_server validate P currentPath ents found"
| "searchEntries_server validate P currentPath [] found = (False, found)"
| "searchEntries_server validate P currentPath (Dirent nm isDir sub # ents) found =
     (let fullPath = path_join [currentPath, nm]
      in if \<not> validate fullPath then searchEntries_server validate P currentPath ents found
         else if shouldExclude P (relative P (rootPath P) fullPath)
         then searchEntries_server validate P currentPath ents found
         else
           let found' = (if str_includes (toLowerCase nm) (toLowerCase (pattern P))
                         then found @ [fullPath] else found)
           in if isDir
              then searchEntries_server validate P currentPath ents
                     (snd (search_server validate P fullPath sub found'))
              else searchEntries_server validate P currentPath ents found')"

definition searchFiles_server ::
  "(string \<Rightarrow> bool) \<Rightarrow> search_params \<Rightarrow> dirent list option \<Rightarrow> fs_error + string list" where
  "searchFiles_server validate P rootEntries =
     (case search_server validate P (rootPath P) rootEntries [] of
        (True, found) \<Rightarrow> Inl (Error ''readdir'')
      | (False, found) \<Rightarrow> Inr found)"

text \<open>
  The relation between a state of the limited search and the array of the unlimited one at
  the same point of the traversal: the same paths, or the limited search has stopped with an
  initial part of them.
\<close>

definition alongside :: "search_params \<Rightarrow> search_state \<Rightarrow> string list \<Rightarrow> bool" where
  "alongside P st found =
     (results st = found
      \<or> (limitReached P st \<and> take (length (results st)) found = results st))"


section \<open>FileCache\<close>

subsection \<open>The LRU cache of the lru-cache package\<close>

text \<open>
  \<^verbatim>\<open>LRUCache\<close> is the class of the lru-cache package, modelled here from its documented
  behaviour for the options the server sets (\<^verbatim>\<open>max\<close>, \<^verbatim>\<open>ttl\<close>, \<^verbatim>\<open>updateAgeOnGet\<close>,
  \<^verbatim>\<open>dispose\<close>). A cache is the list of its items, most recently used first, each with the
  clock reading at which its age started. Every operation also returns the values for which
  the cache calls \<^verbatim>\<open>dispose\<close>. An item whose age exceeds a non-zero \<^verbatim>\<open>ttl\<close> is stale: it
  stays in the cache and counts in \<^verbatim>\<open>size\<close>, \<^verbatim>\<open>keys()\<close> skips it, and \<^verbatim>\<open>get\<close> deletes it.
\<close>

type_synonym 'v lru = "(string \<times> 'v \<times> nat) list"

definition isStale :: "nat \<Rightarrow> nat \<Rightarrow> nat \<Rightarrow> bool" where
  "isStale ttl now start = (ttl \<noteq> 0 \<and> start \<noteq> 0 \<and> now - start > ttl)"

definition lru_delete :: "string \<Rightarrow> 'v lru \<Rightarrow> 'v lru \<times> 'v list" where
  "lru_delete k c =
     (filter (\<lambda>item. fst item \<noteq> k) c,
      map (\<lambda>item. fst (snd item)) (filter (\<lambda>item. fst item = k) c))"

definition lru_get :: "nat \<Rightarrow> nat \<Rightarrow> string \<Rightarrow> 'v lru \<Rightarrow> 'v option \<times> 'v lru \<times> 'v list" where
  "lru_get ttl now k c =
     (case map_of c k of
        None \<Rightarrow> (None, c, [])
      | Some (v, start) \<Rightarrow>
          if isStale ttl now start then (None, fst (lru_delete k c), [v])
          else (Some v, (k, v, now) # fst (lru_delete k c), []))"

definition lru_set :: "nat \<Rightarrow> nat \<Rightarrow> string \<Rightarrow> 'v \<Rightarrow> 'v lru \<Rightarrow> 'v lru \<times> 'v list" where
  "lru_set maxItems now k v c =
     (case map_of c k of
        Some (old, start) \<Rightarrow> ((k, v, now) # fst (lru_delete k c), [old])
      | None \<Rightarrow>
          if maxItems \<noteq> 0 \<and> maxItems \<le> length c
          then ((k, v, now) # butlast c, [fst (snd (last c))])
          else ((k, v, now) # c, []))"

definition lru_clear :: "'v lru \<Rightarrow> 'v lru \<times> 'v list" where
  "lru_clear c = ([], map (\<lambda>item. fst (snd item)) c)"

definition lru_keys :: "nat \<Rightarrow> nat \<Rightarrow> 'v lru \<Rightarrow> string list" where
  "lru_keys ttl now c = map fst (filter (\<lambda>item. \<not> isStale ttl now (snd (snd item))) c)"

subsection \<open>The class FileCache\<close>

text \<open>
  An operation of the cache is given the clock reading \<open>now\<close> of its call and what
  \<^verbatim>\<open>fs.stat\<close> answers during it; calls do not overlap, and the time that a call takes is
  not modelled.
\<close>

record CacheConfig =
  enabled :: bool
  ttl :: nat
  maxSize :: int

text \<open>
  \<^verbatim>\<open>Buffer.byteLength(s, 'utf-8')\<close>: in UTF-8 a code unit below 128 takes one byte and
  the others of the model, up to 255, take two.
\<close>

definition byteLength :: "string \<Rightarrow> nat" where
  "byteLength s = (\<Sum>c \<leftarrow> s. if digit7 c then 2 else 1)"

record CacheEntry =
  content :: string
  mtime :: int
  entrySize :: nat

record CacheMetadata =
  metaPath :: string
  metaMtime :: int
  metaSize :: nat

text \<open>
  Of the statistics the model keeps the three counters; \<^verbatim>\<open>getStats\<close> reads the other two,
  \<^verbatim>\<open>currentSize\<close> and \<^verbatim>\<open>entryCount\<close>, from the cache itself.
\<close>

record CacheStats =
  hits :: nat
  misses :: nat
  evictions :: nat

record FileCache =
  config :: CacheConfig
  contentCache :: "CacheEntry lru"
  metadataCache :: "CacheMetadata lru"
  currentSize :: int
  stats :: CacheStats

text \<open>
  \<^verbatim>\<open>fs.stat\<close>: the modification time and the size of a file, \<open>None\<close> where the call throws.
\<close>

type_synonym stat_fn = "string \<Rightarrow> (int \<times> nat) option"

definition newFileCache :: "CacheConfig \<Rightarrow> FileCache" where
  "newFileCache cfg =
     \<lparr>config = cfg, contentCache = [], metadataCache = [], currentSize = 0,
      stats = \<lparr>hits = 0, misses = 0, evictions = 0\<rparr>\<rparr>"

text \<open>The \<^verbatim>\<open>dispose\<close> callback of the content cache.\<close>

definition dispose :: "CacheEntry \<Rightarrow> FileCache \<Rightarrow> FileCache" where
  "dispose v fc =
     fc\<lparr>currentSize := currentSize fc - int (entrySize v),
        stats := (stats fc)\<lparr>evictions := evictions (stats fc) + 1\<rparr>\<rparr>"

definition disposeAll :: "CacheEntry list \<Rightarrow> FileCache \<Rightarrow> FileCache" where
  "disposeAll vs fc = fold dispose vs fc"

text \<open>\<^verbatim>\<open>this.contentCache.delete(k)\<close>, with the callbacks it runs.\<close>

definition contentCache_delete :: "string \<Rightarrow> FileCache \<Rightarrow> FileCache" where
  "contentCache_delete k fc =
     (case lru_delete k (contentCache fc) of
        (cc, disposed) \<Rightarrow> disposeAll disposed (fc\<lparr>contentCache := cc\<rparr>))"

text \<open>\<^verbatim>\<open>this.contentCache.get(k)\<close>, with the callbacks it runs.\<close>

definition contentCache_get :: "nat \<Rightarrow> string \<Rightarrow> FileCache \<Rightarrow> CacheEntry option \<times> FileCache" where
  "contentCache_get now k fc =
     (case lru_get (ttl (config fc)) now k (contentCache fc) of
        (r, cc, disposed) \<Rightarrow> (r, disposeAll disposed (fc\<lparr>contentCache := cc\<rparr>)))"

definition getOldestKey :: "nat \<Rightarrow> FileCache \<Rightarrow> string option" where
  "getOldestKey now fc =
     (case lru_keys (ttl (config fc)) now (contentCache fc) of
        [] \<Rightarrow> None
      | k # ks \<Rightarrow> Some (last (k # ks)))"

lemma getOldestKey_in_cache:
  assumes "getOldestKey now fc = Some k"
  shows "k \<in> fst ` set (contentCache fc)"
proof -
  from assms have "k \<in> set (lru_keys (ttl (config fc)) now (contentCache fc))"
    by (auto simp: getOldestKey_def split: list.splits if_splits)
  then show ?thesis by (auto simp: lru_keys_def)
qed

lemma disposeAll_contentCache [simp]: "contentCache (disposeAll vs fc) = contentCache fc"
  unfolding disposeAll_def by (induction vs arbitrary: fc) (simp_all add: dispose_def)

lemma contentCache_delete_shrinks:
  assumes "k \<in> fst ` set (contentCache fc)"
  shows "length (contentCache (contentCache_delete k fc)) < length (contentCache fc)"
proof -
  from assms obtain item where "item \<in> set (contentCache fc)" "\<not> fst item \<noteq> k" by auto
  then have "length (filter (\<lambda>item. fst item \<noteq> k) (contentCache fc)) < length (contentCache fc)"
    by (rule length_filter_less)
  then show ?thesis by (simp add: contentCache_delete_def lru_delete_def)
qed

text \<open>
  The loop of \<^verbatim>\<open>set\<close> that makes room:
  \<^verbatim>\<open>while (this.currentSize + size > this.config.maxSize && this.contentCache.size > 0)\<close>.
  An undefined or empty oldest key leaves the loop.
\<close>

function evictLoop :: "nat \<Rightarrow> nat \<Rightarrow> FileCache \<Rightarrow> FileCache" where
  "evictLoop now sz fc =
     (if currentSize fc + int sz > maxSize (config fc) \<and> length (contentCache fc) > 0 then
        (case getOldestKey now fc of
           Some oldestKey \<Rightarrow>
             if oldestKey \<noteq> [] then evictLoop now sz (contentCache_delete oldestKey fc)
             else fc
         | None \<Rightarrow> fc)
      else fc)"
  by pat_completeness auto
termination
  by (relation "measure (\<lambda>(now, sz, fc). length (contentCache fc))")
     (auto dest!: getOldestKey_in_cache intro: contentCache_delete_shrinks)

declare evictLoop.simps [simp del]

definition FileCache_set :: "stat_fn \<Rightarrow> nat \<Rightarrow> string \<Rightarrow> string \<Rightarrow> FileCache \<Rightarrow> FileCache" where
  "FileCache_set stat now filePath text fc =
     (if \<not> enabled (config fc) then fc
      else
        (case stat filePath of
           None \<Rightarrow> fc
         | Some (mtimeMs, statSize) \<Rightarrow>
             let sz = byteLength text;
                 fc1 = evictLoop now sz fc
             in if int sz > maxSize (config fc1) then fc1
                else
                  (case lru_set 10000 now filePath
                          \<lparr>content = text, mtime = mtimeMs, entrySize = sz\<rparr> (contentCache fc1) of
                     (cc, disposed) \<Rightarrow>
                       let fc2 = disposeAll disposed (fc1\<lparr>contentCache := cc\<rparr>);
                           fc3 = fc2\<lparr>currentSize := currentSize fc2 + int sz\<rparr>
                       in fc3\<lparr>metadataCache :=
                                fst (lru_set 50000 now filePath
                                       \<lparr>metaPath = filePath, metaMtime = mtimeMs,
                                        metaSize = statSize\<rparr>
                                       (metadataCache fc3))\<rparr>)))"

definition invalidate :: "nat \<Rightarrow> string \<Rightarrow> FileCache \<Rightarrow> FileCache" where
  "invalidate now filePath fc =
     (case contentCache_get now filePath fc of
        (entry, fc1) \<Rightarrow>
          let fc2 = (case entry of
                       Some e \<Rightarrow> fc1\<lparr>currentSize := currentSize fc1 - int (entrySize e)\<rparr>
                     | None \<Rightarrow> fc1);
              fc3 = contentCache_delete filePath fc2
          in fc3\<lparr>metadataCache := fst (lru_delete filePath (metadataCache fc3))\<rparr>)"

definition invalidateAll :: "FileCache \<Rightarrow> FileCache" where
  "invalidateAll fc =
     (case lru_clear (contentCache fc) of
        (cc, disposed) \<Rightarrow>
          (disposeAll disposed (fc\<lparr>contentCache := cc\<rparr>))
            \<lparr>metadataCache := fst (lru_clear (metadataCache fc)), currentSize := 0\<rparr>)"

definition countMiss :: "FileCache \<Rightarrow> FileCache" where
  "countMiss fc = fc\<lparr>stats := (stats fc)\<lparr>misses := misses (stats fc) + 1\<rparr>\<rparr>"

definition countHit :: "FileCache \<Rightarrow> FileCache" where
  "countHit fc = fc\<lparr>stats := (stats fc)\<lparr>hits := hits (stats fc) + 1\<rparr>\<rparr>"

text \<open>\<^verbatim>\<open>get\<close> returns the content, or \<open>None\<close> for \<^verbatim>\<open>null\<close>, and the cache after the call.\<close>

definition FileCache_get :: "stat_fn \<Rightarrow> nat \<Rightarrow> string \<Rightarrow> FileCache \<Rightarrow> string option \<times> FileCache" where
  "FileCache_get stat now filePath fc =
     (if \<not> enabled (config fc) then (None, fc)
      else
        (case contentCache_get now filePath fc of
           (None, fc1) \<Rightarrow> (None, countMiss fc1)
         | (Some entry, fc1) \<Rightarrow>
             (case stat filePath of
                Some (currentMtime, statSize) \<Rightarrow>
                  if currentMtime \<noteq> mtime entry
                  then (None, countMiss (invalidate now filePath fc1))
                  else (Some (content entry), countHit fc1)
              | None \<Rightarrow> (None, countMiss (invalidate now filePath fc1)))))"

text \<open>The four operations, and a run of them; each comes with the clock reading of its call.\<close>

datatype cache_op =
    Get string
  | Set string string
  | Invalidate string
  | InvalidateAll

fun runOp :: "stat_fn \<Rightarrow> FileCache \<Rightarrow> nat \<times> cache_op \<Rightarrow> FileCache" where
  "runOp stat fc (now, Get p) = snd (FileCache_get stat now p fc)"
| "runOp stat fc (now, Set p text) = FileCache_set stat now p text fc"
| "runOp stat fc (now, Invalidate p) = invalidate now p fc"
| "runOp stat fc (now, InvalidateAll) = invalidateAll fc"

definition runOps :: "stat_fn \<Rightarrow> FileCache \<Rightarrow> (nat \<times> cache_op) list \<Rightarrow> FileCache" where
  "runOps stat fc ops = foldl (runOp stat) fc ops"

text \<open>The sum of the sizes of the entries the content cache holds.\<close>

definition liveSize :: "FileCache \<Rightarrow> int" where
  "liveSize fc = (\<Sum>item \<leftarrow> contentCache fc. int (entrySize (fst (snd item))))"

section \<open>Properties of the PathGuard\<close>

lemmas path_eval =
  validatePath_def validatePath_server_def absolutePath_def expandHome_def isAbsolute_def
  path_resolve_def path_normalize_def path_dirname_def path_join_def normalizeString_def
  normalizePath_def isAllowed_def Let_def

text \<open>A path that starts with none of the allowed directories is refused.\<close>

lemma validatePath_not_prefixed:
  assumes "\<not> isAllowed allowedDirectories
               (normalizePath (absolutePath env workingDirectory requestedPath))"
  shows "validatePath env requestedPath allowedDirectories workingDirectory
           = Inl (PermissionDeniedError ''access'')"
  using assms by (simp add: validatePath_def Let_def)

text \<open>
  The module function refuses an existing path whose real path starts with none of the
  allowed directories, and does not look at the parent directory.
\<close>

lemma validatePath_symlink_escape:
  assumes "realpath env (absolutePath env workingDirectory requestedPath) = Some realPath"
    and "\<not> isAllowed allowedDirectories (normalizePath realPath)"
  shows "\<exists>operation. validatePath env requestedPath allowedDirectories workingDirectory
           = Inl (PermissionDeniedError operation)"
  using assms by (simp add: validatePath_def Let_def)

text \<open>
  C1, at a failing input. The only allowed directory is \<^verbatim>\<open>/data\<close> and \<^verbatim>\<open>/data-other\<close>
  exists. It is not \<^verbatim>\<open>/data\<close> and does not start with \<^verbatim>\<open>/data/\<close>, and both functions
  return it as a valid path, because \<^verbatim>\<open>/data-other\<close> starts with the characters of
  \<^verbatim>\<open>/data\<close>.
\<close>

theorem validatePath_accepts_prefix_sibling:
  "validatePath
     \<lparr>homedir = ''/home/u'', pcwd = ''/'',
      realpath = [''/data'' \<mapsto> ''/data'', ''/data-other'' \<mapsto> ''/data-other'']\<rparr>
     ''/data-other'' [''/data''] ''/'' = Inr ''/data-other''
   \<and> validatePath_server
     \<lparr>homedir = ''/home/u'', pcwd = ''/'',
      realpath = [''/data'' \<mapsto> ''/data'', ''/data-other'' \<mapsto> ''/data-other'']\<rparr>
     [''/data''] ''/data-other'' = Inr ''/data-other''
   \<and> ''/data-other'' \<noteq> ''/data'' \<and> \<not> startsWith ''/data-other'' (''/data'' @ ''/'')"
  by (simp add: path_eval)

text \<open>
  C2, at a failing input. \<^verbatim>\<open>/data/link\<close> is a symbolic link to \<^verbatim>\<open>/etc/passwd\<close> and the
  only allowed directory is \<^verbatim>\<open>/data\<close>. The server script's function returns \<^verbatim>\<open>/data/link\<close>:
  its own exception for the link's target is caught by the \<^verbatim>\<open>catch\<close> meant for paths that
  do not exist, and the check of the parent directory \<^verbatim>\<open>/data\<close> accepts the path. The module
  function refuses the same request.
\<close>

theorem validatePath_server_symlink_fallback:
  "validatePath_server
     \<lparr>homedir = ''/home/u'', pcwd = ''/'',
      realpath = [''/data'' \<mapsto> ''/data'', ''/data/link'' \<mapsto> ''/etc/passwd'']\<rparr>
     [''/data''] ''/data/link'' = Inr ''/data/link''
   \<and> validatePath
     \<lparr>homedir = ''/home/u'', pcwd = ''/'',
      realpath = [''/data'' \<mapsto> ''/data'', ''/data/link'' \<mapsto> ''/etc/passwd'']\<rparr>
     ''/data/link'' [''/data''] ''/''
     = Inl (PermissionDeniedError ''access (symlink target outside allowed directories)'')"
  by (simp add: path_eval)

section \<open>Properties of the PatchEngine\<close>

lemma applyEdits_append:
  "applyEdits c (pre @ es) =
     (case applyEdits c pre of Inl err \<Rightarrow> Inl err | Inr c' \<Rightarrow> applyEdits c' es)"
  by (induction pre arbitrary: c) (auto split: option.splits)

text \<open>
  The window search returns nothing exactly when no window of the content's lines matches
  the lines of the old text.
\<close>

lemma findWindow_None_iff:
  "findWindow oldLines contentLines i = None \<longleftrightarrow>
     (\<forall>k\<ge>i. k + length oldLines \<le> length contentLines \<longrightarrow>
        \<not> isMatch oldLines (take (length oldLines) (drop k contentLines)))"
proof (induction oldLines contentLines i rule: findWindow.induct)
  case (1 oldLines contentLines i)
  show ?case
  proof (cases "i + length oldLines \<le> length contentLines")
    case False
    then show ?thesis by (subst findWindow.simps) auto
  next
    case True
    show ?thesis
    proof (cases "isMatch oldLines (take (length oldLines) (drop i contentLines))")
      case m: True
      with True show ?thesis by (subst findWindow.simps) auto
    next
      case m: False
      have "findWindow oldLines contentLines i = findWindow oldLines contentLines (Suc i)"
        using True m by (subst findWindow.simps) simp
      moreover have "(\<forall>k\<ge>i. k + length oldLines \<le> length contentLines \<longrightarrow>
            \<not> isMatch oldLines (take (length oldLines) (drop k contentLines))) \<longleftrightarrow>
          (\<forall>k\<ge>Suc i. k + length oldLines \<le> length contentLines \<longrightarrow>
            \<not> isMatch oldLines (take (length oldLines) (drop k contentLines)))"
        using m by (metis Suc_leD Suc_le_eq le_neq_implies_less)
      ultimately show ?thesis using "1.IH" [OF True m] by simp
    qed
  qed
qed

text \<open>
  C3. The edits before \<open>e\<close> have been applied in memory and gave \<open>current\<close>; the old text of
  \<open>e\<close> is not a substring of \<open>current\<close> and no window of its lines matches. Then the call
  fails with the error of that edit, whatever edits follow and whether or not it is a dry
  run, and the disk is the one the call started with: nothing of the edits before \<open>e\<close> is
  written.
\<close>

theorem applyFileEdits_no_match_unchanged:
  assumes "files fs filePath = Some raw"
    and "applyEdits (normalizeLineEndings raw) pre = Inr current"
    and "\<not> str_includes current (normalizeLineEndings (oldText e))"
    and "findWindow (split LF (normalizeLineEndings (oldText e))) (split LF current) 0 = None"
  shows "applyFileEdits patch fs filePath (pre @ e # post) dryRun =
           (Inl (Error (''Could not find exact match for edit:'' @ [LF] @ oldText e)), fs)"
proof -
  have "applyEdit current e = None"
    using assms(3,4) by (simp add: applyEdit_def Let_def)
  then have "applyEdits (normalizeLineEndings raw) (pre @ e # post) =
               Inl (Error (''Could not find exact match for edit:'' @ [LF] @ oldText e))"
    using assms(2) by (simp add: applyEdits_append)
  then show ?thesis
    using assms(1) by (simp add: applyFileEdits_def readFile_def Let_def)
qed

text \<open>
  The file holds \<^verbatim>\<open>foo\r\nbar\r\n\<close>; the first edit turns \<^verbatim>\<open>bar\<close> into \<^verbatim>\<open>baz\<close> in memory,
  the second looks for \<^verbatim>\<open>qux\<close>, which is nowhere. The call fails and the file is as it was.
\<close>

theorem applyFileEdits_no_match_unchanged_witness:
  "applyFileEdits (\<lambda>a b c d e f. c @ d)
     \<lparr>files = [''/tmp/a/notes.txt'' \<mapsto> ''foo'' @ [CR, LF] @ ''bar'' @ [CR, LF]],
      writable = UNIV\<rparr>
     ''/tmp/a/notes.txt''
     [\<lparr>oldText = ''bar'', newText = ''baz''\<rparr>, \<lparr>oldText = ''qux'', newText = ''x''\<rparr>] False
   = (Inl (Error (''Could not find exact match for edit:'' @ [LF] @ ''qux'')),
      \<lparr>files = [''/tmp/a/notes.txt'' \<mapsto> ''foo'' @ [CR, LF] @ ''bar'' @ [CR, LF]],
       writable = UNIV\<rparr>)"
proof -
  let ?raw = "''foo'' @ [CR, LF] @ ''bar'' @ [CR, LF]"
  let ?fs = "\<lparr>files = [''/tmp/a/notes.txt'' \<mapsto> ?raw], writable = UNIV\<rparr>"
  let ?e = "\<lparr>oldText = ''qux'', newText = ''x''\<rparr>"
  let ?cur = "''foo'' @ [LF] @ ''baz'' @ [LF]"
  have h1: "files ?fs ''/tmp/a/notes.txt'' = Some ?raw" by simp
  have h2: "applyEdits (normalizeLineEndings ?raw) [\<lparr>oldText = ''bar'', newText = ''baz''\<rparr>]
              = Inr ?cur"
    by (simp add: applyEdit_def str_includes_def str_replace_def CR_def LF_def)
  have h3: "\<not> str_includes ?cur (normalizeLineEndings (oldText ?e))"
    by (simp add: str_includes_def LF_def)
  have h4: "findWindow (split LF (normalizeLineEndings (oldText ?e))) (split LF ?cur) 0 = None"
    by (simp add: findWindow.simps isMatch_def trim_def isWhiteSpace_def LF_def)
  show ?thesis
    using applyFileEdits_no_match_unchanged
            [OF h1 h2 h3 h4, of "(\<lambda>a b c d e f. c @ d)" "[]" False]
    by simp
qed

text \<open>
  C10. A call that is not a dry run and succeeds has read a file \<open>raw\<close>, has applied the
  edits to the CRLF-to-LF normalization of \<open>raw\<close>, and has written the outcome of that to
  the path: with no edit at all the file becomes the normalization of what it was. The
  text returned is the formatted diff that \<^verbatim>\<open>createUnifiedDiff\<close> computes from the normalized
  content, not from \<open>raw\<close>, and the written content.
\<close>

theorem applyFileEdits_writes_normalized:
  assumes "applyFileEdits patch fs filePath edits False = (Inr formattedDiff, fs')"
  shows "\<exists>raw modifiedContent.
           files fs filePath = Some raw \<and>
           applyEdits (normalizeLineEndings raw) edits = Inr modifiedContent \<and>
           fs' = fs\<lparr>files := (files fs)(filePath \<mapsto> modifiedContent)\<rparr> \<and>
           (edits = [] \<longrightarrow> modifiedContent = normalizeLineEndings raw) \<and>
           formattedDiff =
             formatDiff (createUnifiedDiff patch (normalizeLineEndings raw) modifiedContent
                           filePath)"
  using assms
  by (auto simp: applyFileEdits_def readFile_def writeFile_def Let_def
           split: option.splits sum.splits if_splits)

text \<open>
  A file with CRLF line ends, one edit on its last line: the call succeeds and the file
  written has LF line ends throughout.
\<close>

theorem applyFileEdits_writes_normalized_witness:
  "applyFileEdits (\<lambda>a b c d e f. c @ ''|'' @ d)
     \<lparr>files = [''/f'' \<mapsto> ''a'' @ [CR, LF] @ ''b'' @ [CR, LF] @ ''c''],
      writable = UNIV\<rparr>
     ''/f'' [\<lparr>oldText = ''c'', newText = ''d''\<rparr>] False
   = (Inr (replicate 3 (CHR 0x60) @ ''diff'' @ [LF]
           @ ''a'' @ [LF] @ ''b'' @ [LF] @ ''c|a'' @ [LF] @ ''b'' @ [LF] @ ''d''
           @ replicate 3 (CHR 0x60) @ [LF, LF]),
      \<lparr>files = [''/f'' \<mapsto> ''a'' @ [LF] @ ''b'' @ [LF] @ ''d''], writable = UNIV\<rparr>)
   \<and> (\<exists>raw modifiedContent.
         raw = ''a'' @ [CR, LF] @ ''b'' @ [CR, LF] @ ''c'' \<and>
         applyEdits (normalizeLineEndings raw) [\<lparr>oldText = ''c'', newText = ''d''\<rparr>]
           = Inr modifiedContent \<and>
         modifiedContent = ''a'' @ [LF] @ ''b'' @ [LF] @ ''d'')"
proof -
  let ?P = "(\<lambda>a b c d e f. c @ ''|'' @ d) :: patcher"
  let ?raw = "''a'' @ [CR, LF] @ ''b'' @ [CR, LF] @ ''c''"
  let ?fs = "\<lparr>files = [''/f'' \<mapsto> ?raw], writable = UNIV\<rparr>"
  let ?D = "replicate 3 (CHR 0x60) @ ''diff'' @ [LF]
           @ ''a'' @ [LF] @ ''b'' @ [LF] @ ''c|a'' @ [LF] @ ''b'' @ [LF] @ ''d''
           @ replicate 3 (CHR 0x60) @ [LF, LF]"
  let ?new = "''a'' @ [LF] @ ''b'' @ [LF] @ ''d''"
  let ?fs' = "\<lparr>files = [''/f'' \<mapsto> ?new], writable = UNIV\<rparr>"
  have h: "applyFileEdits ?P ?fs ''/f'' [\<lparr>oldText = ''c'', newText = ''d''\<rparr>] False
             = (Inr ?D, ?fs')"
    by (simp add: applyFileEdits_def readFile_def writeFile_def applyEdit_def str_includes_def
          str_replace_def createUnifiedDiff_def formatDiff_def countBackticks.simps CR_def LF_def
          numeral_3_eq_3)
  from applyFileEdits_writes_normalized [OF h] obtain raw modifiedContent where
    r: "files ?fs ''/f'' = Some raw"
    and m: "applyEdits (normalizeLineEndings raw) [\<lparr>oldText = ''c'', newText = ''d''\<rparr>]
              = Inr modifiedContent"
    and w: "?fs' = ?fs\<lparr>files := (files ?fs)(''/f'' \<mapsto> modifiedContent)\<rparr>"
    by blast
  from r have "raw = ?raw" by simp
  moreover from w have "files ?fs' ''/f'' = Some modifiedContent" by simp
  then have "modifiedContent = ?new" by simp
  ultimately show ?thesis using h m by blast
qed

section \<open>Properties of the StreamReader\<close>

lemma split_nonempty [simp]: "split sep s \<noteq> []"
  by (induction s) (auto split: list.splits)

lemma join_split [simp]: "join [sep] (split sep s) = s"
proof (induction s)
  case Nil
  then show ?case by simp
next
  case (Cons c s)
  obtain l ls where ls: "split sep s = l # ls" by (cases "split sep s") auto
  show ?case
  proof (cases "c = sep")
    case True
    with Cons ls show ?thesis by simp
  next
    case False
    with Cons ls show ?thesis by (cases ls) auto
  qed
qed

lemma split_no_sep: "l \<in> set (split sep s) \<Longrightarrow> sep \<notin> set l"
  by (induction s arbitrary: l) (auto split: list.splits if_splits)

lemma split_without_sep: "sep \<notin> set s \<Longrightarrow> split sep s = [s]"
  by (induction s) auto

lemma split_append:
  "split sep (a @ b) = butlast (split sep a) @ [last (split sep a) @ hd (split sep b)] @ tl (split sep b)"
proof (induction a)
  case Nil
  then show ?case by simp
next
  case (Cons c a)
  obtain l ls where ls: "split sep a = l # ls" by (cases "split sep a") auto
  obtain m ms where ms: "split sep (a @ b) = m # ms" by (cases "split sep (a @ b)") auto
  show ?case
  proof (cases "c = sep")
    case True
    with Cons ls show ?thesis by simp
  next
    case False
    with Cons ls ms show ?thesis by (cases ls) auto
  qed
qed

lemma length_split_append:
  "length (split sep (a @ b)) = length (split sep a) + length (split sep b) - 1"
proof -
  have "length (split sep a) \<ge> 1" "length (split sep b) \<ge> 1"
    by (simp_all add: Suc_leI)
  then show ?thesis by (simp add: split_append)
qed

lemma length_split_drop: "length (split sep (drop k s)) \<le> length (split sep s)"
proof -
  have "length (split sep (take k s @ drop k s)) = length (split sep (take k s)) + length (split sep (drop k s)) - 1"
    by (rule length_split_append)
  moreover have "length (split sep (take k s)) \<ge> 1" by (simp add: Suc_leI)
  ultimately show ?thesis by simp
qed

lemma hd_split_prefix: "split sep s = l # ls \<Longrightarrow> l = take (length l) s"
proof (induction s arbitrary: l ls)
  case Nil
  then show ?case by simp
next
  case (Cons c s)
  then show ?case by (auto split: if_splits list.splits)
qed

lemma normalizeLineEndings_length: "length (normalizeLineEndings s) \<le> length s"
  by (induction s rule: normalizeLineEndings.induct) auto

lemma normalizeLineEndings_id: "\<not> hasCRLF s \<Longrightarrow> normalizeLineEndings s = s"
  by (induction s rule: normalizeLineEndings.induct) auto

lemma normalizeLineEndings_shorter: "hasCRLF s \<Longrightarrow> length (normalizeLineEndings s) < length s"
proof (induction s rule: normalizeLineEndings.induct)
  case (1 c d s)
  then show ?case using normalizeLineEndings_length [of s] by (auto simp: less_Suc_eq_le)
qed auto

lemma normalizeLineEndings_fixed_iff: "normalizeLineEndings s = s \<longleftrightarrow> \<not> hasCRLF s"
  using normalizeLineEndings_id normalizeLineEndings_shorter by fastforce

lemma hasCRLF_Cons: "hasCRLF s \<Longrightarrow> hasCRLF (c # s)"
  by (cases s) auto

lemma hasCRLF_drop: "hasCRLF (drop k s) \<Longrightarrow> hasCRLF s"
proof (induction s arbitrary: k)
  case Nil
  then show ?case by simp
next
  case (Cons c s)
  then show ?case by (cases k) (auto intro: hasCRLF_Cons)
qed

lemma hasCRLF_take: "hasCRLF (take k s) \<Longrightarrow> hasCRLF s"
proof (induction s arbitrary: k rule: hasCRLF.induct)
  case (1 c d s)
  show ?case
  proof (cases k)
    case 0
    with 1 show ?thesis by simp
  next
    case (Suc j)
    show ?thesis
    proof (cases j)
      case 0
      with Suc 1 show ?thesis by simp
    next
      case (Suc i)
      have "take (Suc i) (d # s) = d # take i s" by simp
      with \<open>k = Suc j\<close> Suc "1.prems" "1.IH" [of "Suc i"] show ?thesis by auto
    qed
  qed
qed (auto simp: take_Cons' split: if_splits)

lemma unshiftLines_all:
  "int (linesFound + length xs) \<le> numLines \<Longrightarrow>
     unshiftLines xs lines linesFound numLines = (rev xs @ lines, linesFound + length xs)"
  by (induction xs arbitrary: lines linesFound) auto


text \<open>
  The invariant of the loop of \<^verbatim>\<open>tailFile\<close> when every line is wanted: the lines of the
  part of the file from \<open>position\<close> on are the remainder followed by the lines found.
\<close>

lemma tailLoop_whole_file:
  assumes dec: "\<forall>bs. (\<forall>c\<in>set bs. \<not> digit7 c) \<longrightarrow> decode bs = bs"
    and asc: "\<forall>c\<in>set fileData. \<not> digit7 c"
    and ncr: "normalizeLineEndings fileData = fileData"
    and n: "int (length (split LF fileData)) \<le> numLines"
    and pos: "0 < position" "position \<le> length fileData"
    and inv: "split LF (drop position fileData) = remainingText # lines"
    and lf: "linesFound = length lines"
  shows "tailLoop decode fileData numLines position lines linesFound remainingText
           = split LF fileData"
  using pos inv lf
proof (induction position arbitrary: lines linesFound remainingText rule: less_induct)
  case (less position)
  define size' where "size' = min CHUNK_SIZE position"
  define position' where "position' = position - size'"
  define readData where "readData = readChunk fileData size' position'"
  define cl where "cl = split LF (readData @ remainingText)"
  have sz: "0 < size'" "size' \<le> position"
    using less.prems(1) by (simp_all add: size'_def CHUNK_SIZE_def)
  have p': "position' < position" "position' + size' = position"
    using sz by (simp_all add: position'_def)
  have len_rd: "length readData = size'"
    using less.prems(2) p' by (simp add: readData_def readChunk_def)
  have rd_ne: "readData \<noteq> []" using len_rd sz by auto
  have dd: "drop position' fileData = readData @ drop position fileData"
  proof -
    have "drop position' fileData
            = take size' (drop position' fileData) @ drop size' (drop position' fileData)"
      by (rule append_take_drop_id [symmetric])
    also have "drop size' (drop position' fileData) = drop position fileData"
      using p' by (simp add: add.commute)
    finally show ?thesis by (simp add: readData_def readChunk_def)
  qed
  have cond: "int linesFound < numLines"
  proof -
    have "length lines < length (split LF (drop position fileData))"
      using less.prems(3) by simp
    also have "\<dots> \<le> length (split LF fileData)" by (rule length_split_drop)
    finally show ?thesis using n less.prems(4) by simp
  qed
  have "set readData \<subseteq> set fileData"
    unfolding readData_def readChunk_def
    by (meson set_drop_subset set_take_subset subset_trans)
  then have dr: "decode readData = readData" using dec asc by blast
  have rem_prefix: "remainingText = take (length remainingText) (drop position fileData)"
    using less.prems(3) by (rule hd_split_prefix)
  have chunk: "readData @ remainingText
                 = take (size' + length remainingText) (drop position' fileData)"
    using rem_prefix len_rd by (simp add: dd)
  have "\<not> hasCRLF fileData" using ncr by (simp add: normalizeLineEndings_fixed_iff)
  then have "\<not> hasCRLF (readData @ remainingText)"
    using chunk hasCRLF_take hasCRLF_drop by metis
  then have norm: "normalizeLineEndings (readData @ remainingText) = readData @ remainingText"
    by (rule normalizeLineEndings_id)
  have "remainingText \<in> set (split LF (drop position fileData))"
    using less.prems(3) by simp
  then have "LF \<notin> set remainingText" by (rule split_no_sep)
  then have sr: "split LF remainingText = [remainingText]" by (rule split_without_sep)
  have cl_eq: "cl = butlast (split LF readData) @ [last (split LF readData) @ remainingText]"
    by (simp add: cl_def split_append [of LF readData remainingText] sr)
  have whole: "split LF (drop position' fileData) = cl @ lines"
    by (simp add: dd split_append [of LF readData "drop position fileData"] less.prems(3) cl_eq)
  have cl_ne: "cl \<noteq> []" by (simp add: cl_def)
  have budget: "int (length (cl @ lines)) \<le> numLines"
  proof -
    have "length (cl @ lines) \<le> length (split LF fileData)"
      using length_split_drop [of LF position' fileData] by (simp add: whole)
    then show ?thesis using n by simp
  qed
  have step: "tailLoop decode fileData numLines position lines linesFound remainingText =
      (case unshiftLines (rev (if 0 < position' then tl cl else cl)) lines linesFound numLines of
         (lines', linesFound') \<Rightarrow>
           tailLoop decode fileData numLines position' lines' linesFound'
             (if 0 < position' then hd cl else remainingText))"
    using less.prems(1) cond rd_ne
    by (subst tailLoop.simps)
       (simp add: Let_def size'_def [symmetric] position'_def [symmetric]
          readData_def [symmetric] dr norm cl_def [symmetric])
  show ?case
  proof (cases "0 < position'")
    case True
    have b: "int (linesFound + length (rev (tl cl))) \<le> numLines"
      using budget less.prems(4) by simp
    have u: "unshiftLines (rev (tl cl)) lines linesFound numLines
               = (tl cl @ lines, linesFound + length (tl cl))"
      using unshiftLines_all [OF b, of lines] by simp
    have inv': "split LF (drop position' fileData) = hd cl # (tl cl @ lines)"
      using whole cl_ne by (cases cl) simp_all
    have "tailLoop decode fileData numLines position' (tl cl @ lines)
            (linesFound + length (tl cl)) (hd cl) = split LF fileData"
      using less.IH [OF p'(1) True _ inv'] p' less.prems(2,4) by (simp add: add.commute)
    then show ?thesis using True u by (simp add: step)
  next
    case False
    have b: "int (linesFound + length (rev cl)) \<le> numLines"
      using budget less.prems(4) by simp
    have u: "unshiftLines (rev cl) lines linesFound numLines
               = (cl @ lines, linesFound + length cl)"
      using unshiftLines_all [OF b, of lines] by simp
    have fin: "cl @ lines = split LF fileData" using whole False by simp
    have stop: "tailLoop decode fileData numLines 0 (cl @ lines) (linesFound + length cl)
                  remainingText = cl @ lines"
      by (subst tailLoop.simps) simp
    show ?thesis using False u stop fin by (simp add: step)
  qed
qed

lemmas tail_eval =
  tailFile_def tailLoop.simps CHUNK_SIZE_def readChunk_def CR_def LF_def Let_def

lemmas head_eval =
  headFile_def headLoop.simps readChunk_def CR_def LF_def Let_def

text \<open>
  \<^verbatim>\<open>tailFile\<close> passes every chunk through \<^verbatim>\<open>normalizeLineEndings\<close>: a file with CRLF line
  ends comes back with LF line ends.
\<close>

lemma tailFile_crlf:
  "tailFile id \<lparr>files = [''/g'' \<mapsto> ''a'' @ [CR, LF] @ ''b''], writable = UNIV\<rparr> ''/g'' 2
     = Inr (''a'' @ [LF] @ ''b'')"
  by (simp add: tail_eval)

text \<open>
  For a file that exists, \<^verbatim>\<open>tailFile\<close> with 0 lines returns the empty string, and on an
  empty file it returns the empty string for every number of lines. When the bytes of the
  file are ASCII, with no carriage return followed by a line feed, and the number asked for
  is at least the number of pieces that the newlines cut the content into, one more than
  there are newlines, \<^verbatim>\<open>tailFile\<close> returns the whole content.
\<close>

lemma tailFile_whole_file:
  assumes "files fs filePath = Some fileData"
  shows "tailFile decode fs filePath 0 = Inr []
       \<and> (fileData = [] \<longrightarrow> tailFile decode fs filePath numLines = Inr [])
       \<and> ((\<forall>bs. (\<forall>c\<in>set bs. \<not> digit7 c) \<longrightarrow> decode bs = bs)
            \<and> (\<forall>c\<in>set fileData. \<not> digit7 c)
            \<and> normalizeLineEndings fileData = fileData
            \<and> int (length (split LF fileData)) \<le> numLines
          \<longrightarrow> tailFile decode fs filePath numLines = Inr fileData)"
proof (intro conjI impI)
  show "tailFile decode fs filePath 0 = Inr []"
    using assms by (simp add: tailFile_def Let_def tailLoop.simps [of _ _ 0])
next
  assume "fileData = []"
  then show "tailFile decode fs filePath numLines = Inr []"
    using assms by (simp add: tailFile_def)
next
  assume h: "(\<forall>bs. (\<forall>c\<in>set bs. \<not> digit7 c) \<longrightarrow> decode bs = bs)
            \<and> (\<forall>c\<in>set fileData. \<not> digit7 c)
            \<and> normalizeLineEndings fileData = fileData
            \<and> int (length (split LF fileData)) \<le> numLines"
  show "tailFile decode fs filePath numLines = Inr fileData"
  proof (cases "fileData = []")
    case True
    with assms show ?thesis by (simp add: tailFile_def)
  next
    case False
    have "tailLoop decode fileData numLines (length fileData) [] 0 [] = split LF fileData"
      using h False by (intro tailLoop_whole_file) simp_all
    with assms False show ?thesis by (simp add: tailFile_def)
  qed
qed

text \<open>
  The file \<^verbatim>\<open>/h\<close> holds \<^verbatim>\<open>a\nb\<close>, with no newline at its end: two lines are the whole
  file, and no line is nothing. The file \<^verbatim>\<open>/e\<close> is empty.
\<close>

lemma tailFile_no_final_newline:
  "tailFile id \<lparr>files = [''/h'' \<mapsto> ''a'' @ [LF] @ ''b'', ''/e'' \<mapsto> []], writable = UNIV\<rparr> ''/h'' 2
     = Inr (''a'' @ [LF] @ ''b'')
   \<and> tailFile id \<lparr>files = [''/h'' \<mapsto> ''a'' @ [LF] @ ''b'', ''/e'' \<mapsto> []], writable = UNIV\<rparr> ''/h'' 0
     = Inr []
   \<and> tailFile id \<lparr>files = [''/h'' \<mapsto> ''a'' @ [LF] @ ''b'', ''/e'' \<mapsto> []], writable = UNIV\<rparr> ''/e'' 7
     = Inr []"
proof -
  let ?fs = "\<lparr>files = [''/h'' \<mapsto> ''a'' @ [LF] @ ''b'', ''/e'' \<mapsto> []], writable = UNIV\<rparr>"
  have h: "files ?fs ''/h'' = Some (''a'' @ [LF] @ ''b'')" by simp
  have e: "files ?fs ''/e'' = Some []" by simp
  have "tailFile id ?fs ''/h'' 2 = Inr (''a'' @ [LF] @ ''b'')"
    using tailFile_whole_file [OF h, of id 2] by (simp add: LF_def CR_def)
  moreover have "tailFile id ?fs ''/h'' 0 = Inr []"
    using tailFile_whole_file [OF h, of id 2] by simp
  moreover have "tailFile id ?fs ''/e'' 7 = Inr []"
    using tailFile_whole_file [OF e, of id 7] by simp
  ultimately show ?thesis by simp
qed

text \<open>
  C8, at a failing input. The file holds \<^verbatim>\<open>a\nb\n\<close>, two lines. \<^verbatim>\<open>tailFile\<close> for two lines
  returns \<^verbatim>\<open>b\n\<close>, not the file, and for one line it returns the empty string: the empty
  text that \<^verbatim>\<open>split\<close> leaves after the final newline is counted as the last line.
  \<^verbatim>\<open>headFile\<close> for two lines of the same file returns both, \<^verbatim>\<open>a\<close> and \<^verbatim>\<open>b\<close>.
\<close>

theorem tailFile_trailing_newline_off_by_one:
  "tailFile id \<lparr>files = [''/f'' \<mapsto> ''a'' @ [LF] @ ''b'' @ [LF]], writable = UNIV\<rparr> ''/f'' 2
     = Inr (''b'' @ [LF])
   \<and> tailFile id \<lparr>files = [''/f'' \<mapsto> ''a'' @ [LF] @ ''b'' @ [LF]], writable = UNIV\<rparr> ''/f'' 1
     = Inr []
   \<and> headFile id \<lparr>files = [''/f'' \<mapsto> ''a'' @ [LF] @ ''b'' @ [LF]], writable = UNIV\<rparr> ''/f'' 2
     = Inr (''a'' @ [LF] @ ''b'')"
  by (simp add: tail_eval head_eval)

section \<open>Properties of the read_file tool\<close>

text \<open>A valid path with a non-zero \<^verbatim>\<open>head\<close> and a non-zero \<^verbatim>\<open>tail\<close> is refused.\<close>

lemma read_file_both_nonzero:
  assumes "validatePath_server env allowedDirectories (path args) = Inr validPath"
    and "head args = Some h" and "h \<noteq> 0" and "tail args = Some t" and "t \<noteq> 0"
  shows "read_file decode env allowedDirectories fs args
           = Inl (Error ''Cannot specify both head and tail parameters simultaneously'')"
  using assms by (simp add: read_file_def truthy_def)

text \<open>
  C9, at a failing input. The request gives both \<^verbatim>\<open>head\<close>, as 0, and \<^verbatim>\<open>tail\<close>, as 1, for
  the file \<^verbatim>\<open>/data/h\<close> that holds \<^verbatim>\<open>a\nb\<close>. The test \<^verbatim>\<open>parsed.data.head && parsed.data.tail\<close>
  takes the 0 for an absent parameter, and the call returns the last line of the file.
\<close>

theorem read_file_head_zero_and_tail:
  "read_file id
     \<lparr>homedir = ''/home/u'', pcwd = ''/'',
      realpath = [''/data'' \<mapsto> ''/data'', ''/data/h'' \<mapsto> ''/data/h'']\<rparr>
     [''/data'']
     \<lparr>files = [''/data/h'' \<mapsto> ''a'' @ [LF] @ ''b''], writable = UNIV\<rparr>
     \<lparr>path = ''/data/h'', tail = Some 1, head = Some 0\<rparr> = Inr ''b''"
  by (simp add: read_file_def truthy_def path_eval tail_eval)

section \<open>Properties of the Searcher\<close>

lemma results_await [simp]: "results (await P d st) = results st"
  by (simp add: await_def)

















text \<open>The unlimited search only ever adds to its array.\<close>

lemma search_server_extends:
  "\<exists>extra. snd (search_server validate P currentPath dir found) = found @ extra"
  "\<exists>extra. snd (searchEntries_server validate P currentPath ents found) = found @ extra"
proof (induction validate P currentPath dir found and validate P currentPath ents found
       rule: search_server_searchEntries_server.induct)
  case (4 validate P currentPath nm isDir sub ents found)
  let ?fullPath = "path_join [currentPath, nm]"
  let ?found' = "(if str_includes (toLowerCase nm) (toLowerCase (pattern P))
                         then found @ [?fullPath] else found)"
  show ?case
  proof (cases "\<not> validate ?fullPath")
    case True
    with "4.IH"(1) [OF refl True] show ?thesis by (simp add: Let_def)
  next
    case v: False
    show ?thesis
    proof (cases "shouldExclude P (relative P (rootPath P) ?fullPath)")
      case True
      with v "4.IH"(2) [OF refl v True] show ?thesis by (simp add: Let_def)
    next
      case e: False
      have f: "\<exists>extra. ?found' = found @ extra" by simp
      show ?thesis
      proof (cases isDir)
        case True
        from "4.IH"(3) [OF refl v e refl True] obtain m1 where
          m1: "snd (search_server validate P ?fullPath sub ?found') = ?found' @ m1" by blast
        from "4.IH"(4) [OF refl v e refl True] obtain m2 where
          m2: "snd (searchEntries_server validate P currentPath ents
                      (snd (search_server validate P ?fullPath sub ?found')))
               = snd (search_server validate P ?fullPath sub ?found') @ m2" by blast
        from f obtain m0 where "?found' = found @ m0" by blast
        with m1 m2 have "snd (searchEntries_server validate P currentPath ents
                      (snd (search_server validate P ?fullPath sub ?found')))
               = found @ (m0 @ m1 @ m2)" by simp
        with v e True show ?thesis by (simp add: Let_def del: append_assoc) 
      next
        case d: False
        from "4.IH"(5) [OF refl v e refl d] obtain m2 where
          m2: "snd (searchEntries_server validate P currentPath ents ?found') = ?found' @ m2"
          by blast
        from f obtain m0 where "?found' = found @ m0" by blast
        with m2 have "snd (searchEntries_server validate P currentPath ents ?found')
               = found @ (m0 @ m2)" by simp
        with v e d show ?thesis by (simp add: Let_def del: append_assoc)
      qed
    qed
  qed
qed simp_all

lemma alongside_stopped:
  assumes "limitReached P st'" and "results st' = results st" and "alongside P st found"
  shows "alongside P st' (found @ extra)"
proof -
  from assms(3) have t: "take (length (results st)) found = results st"
    by (auto simp: alongside_def)
  then have "length (take (length (results st)) found) = length (results st)" by simp
  then have "length (results st) \<le> length found" by (simp add: min_def split: if_splits)
  with t assms(1,2) show ?thesis by (simp add: alongside_def)
qed

lemma alongside_running:
  assumes "\<not> limitReached P st" and "alongside P st found"
  shows "results st = found"
  using assms by (auto simp: alongside_def)

text \<open>
  Run side by side on the same directory, the two searches stay related: they do the same
  until the limited one stops, and from then on only the unlimited one records.
\<close>

lemma search_alongside:
  assumes v: "validator P = Some validate"
  shows "\<forall>found. alongside P st found \<longrightarrow>
           alongside P (snd (search P currentPath dir st))
             (snd (search_server validate P currentPath dir found))"
    and "\<forall>found. alongside P st found \<longrightarrow>
           alongside P (snd (searchEntries P currentPath ents st))
             (snd (searchEntries_server validate P currentPath ents found))"
  using v
proof (induction P currentPath dir st and P currentPath ents st
       rule: search_searchEntries.induct)
  case (1 P currentPath st)
  show ?case
  proof (intro allI impI)
    fix found assume a: "alongside P st found"
    show "alongside P (snd (search P currentPath None st))
            (snd (search_server validate P currentPath None found))"
    proof (cases "limitReached P st")
      case True
      with a alongside_stopped [OF True refl a, of "[]"]
      show ?thesis by simp
    next
      case False
      with alongside_running [OF False a] show ?thesis by (simp add: alongside_def)
    qed
  qed
next
  case (2 P currentPath ents st)
  show ?case
  proof (intro allI impI)
    fix found assume a: "alongside P st found"
    show "alongside P (snd (search P currentPath (Some ents) st))
            (snd (search_server validate P currentPath (Some ents) found))"
    proof (cases "limitReached P st")
      case True
      obtain extra where "snd (searchEntries_server validate P currentPath ents found) = found @ extra"
        using search_server_extends(2) by blast
      with True alongside_stopped [OF True refl a, of extra]
      show ?thesis by simp
    next
      case False
      have "alongside P (await P (readdirTime P currentPath) st) found"
        using alongside_running [OF False a] by (simp add: alongside_def)
      with False "2.IH" [OF False "2.prems"] show ?thesis by simp
    qed
  qed
next
  case (3 P currentPath st)
  then show ?case by simp
next
  case (4 P currentPath nm isDir sub ents st)
  let ?fullPath = "path_join [currentPath, nm]"
  show ?case
  proof (intro allI impI)
    fix found assume a: "alongside P st found"
    show "alongside P (snd (searchEntries P currentPath (Dirent nm isDir sub # ents) st))
            (snd (searchEntries_server validate P currentPath (Dirent nm isDir sub # ents) found))"
    proof (cases "limitReached P st")
      case True
      obtain extra where
        "snd (searchEntries_server validate P currentPath (Dirent nm isDir sub # ents) found)
           = found @ extra"
        using search_server_extends(2) by blast
      moreover have "searchEntries P currentPath (Dirent nm isDir sub # ents) st = (False, st)"
        using True by simp
      ultimately show ?thesis
        using alongside_stopped [OF True refl a, of extra] by simp
    next
      case False
      note eq = alongside_running [OF False a]
      let ?st1 = "(case validator P of None \<Rightarrow> st
                   | Some v \<Rightarrow> await P (validateTime P ?fullPath) st)"
      let ?st2 = "(if str_includes (toLowerCase nm) (toLowerCase (pattern P))
                   then ?st1\<lparr>results := results ?st1 @ [?fullPath]\<rparr> else ?st1)"
      let ?found' = "(if str_includes (toLowerCase nm) (toLowerCase (pattern P))
                      then found @ [?fullPath] else found)"
      have r1: "results ?st1 = found" using eq by (simp split: option.splits)
      have a1: "alongside P ?st1 found" using r1 by (simp add: alongside_def)
      have a2: "alongside P ?st2 ?found'" using r1 by (simp add: alongside_def)
      have vc: "(case validator P of None \<Rightarrow> False | Some v \<Rightarrow> \<not> v ?fullPath)
                  = (\<not> validate ?fullPath)"
        using "4.prems" by simp
      show ?thesis
      proof (cases "\<not> validate ?fullPath")
        case True
        then have c: "(case validator P of None \<Rightarrow> False | Some v \<Rightarrow> \<not> v ?fullPath)"
          using vc by simp
        from "4.IH"(1) [OF False refl refl c "4.prems"] a1 False c True
        show ?thesis by (simp add: Let_def)
      next
        case val: False
        then have c: "\<not> (case validator P of None \<Rightarrow> False | Some v \<Rightarrow> \<not> v ?fullPath)"
          using vc by simp
        show ?thesis
        proof (cases "shouldExclude P (relative P (rootPath P) ?fullPath)")
          case True
          from "4.IH"(2) [OF False refl refl c True "4.prems"] a1 False c val True
          show ?thesis by (simp add: Let_def)
        next
          case e: False
          show ?thesis
          proof (cases isDir)
            case True
            from "4.IH"(3) [OF False refl refl c e refl True "4.prems"] a2
            have a3: "alongside P (snd (search P ?fullPath sub ?st2))
                        (snd (search_server validate P ?fullPath sub ?found'))" by blast
            from "4.IH"(4) [OF False refl refl c e refl True "4.prems"] a3
            have "alongside P
                    (snd (searchEntries P currentPath ents (snd (search P ?fullPath sub ?st2))))
                    (snd (searchEntries_server validate P currentPath ents
                            (snd (search_server validate P ?fullPath sub ?found'))))" by blast
            with False c val e True show ?thesis by (simp add: Let_def)
          next
            case d: False
            from "4.IH"(5) [OF False refl refl c e refl d "4.prems"] a2
            have "alongside P (snd (searchEntries P currentPath ents ?st2))
                    (snd (searchEntries_server validate P currentPath ents ?found'))" by blast
            with False c val e d show ?thesis by (simp add: Let_def)
          qed
        qed
      qed
    qed
  qed
qed

text \<open>
  What the limited \<^verbatim>\<open>searchFiles\<close> returns is an initial part of what the unlimited one
  returns on the same tree.
\<close>

lemma searchFiles_prefix_of_unbounded:
  assumes "validator P = Some validate"
    and "searchFiles P rootEntries = Inr rs"
    and "searchFiles_server validate P rootEntries = Inr full"
  shows "\<exists>extra. full = rs @ extra"
proof -
  let ?st0 = "initialState"
  have "alongside P ?st0 []" by (simp add: alongside_def initialState_def)
  with search_alongside(1) [OF assms(1), of ?st0 "rootPath P" rootEntries]
  have "alongside P (snd (search P (rootPath P) rootEntries ?st0))
          (snd (search_server validate P (rootPath P) rootEntries []))" by blast
  moreover have "rs = results (snd (search P (rootPath P) rootEntries ?st0))"
    using assms(2) by (auto simp: searchFiles_def runSearch_def split: prod.splits bool.splits)
  moreover have "full = snd (search_server validate P (rootPath P) rootEntries [])"
    using assms(3) by (auto simp: searchFiles_server_def split: prod.splits bool.splits)
  ultimately have "rs = full \<or> take (length rs) full = rs" by (auto simp: alongside_def)
  then have "full = rs @ drop (length rs) full"
    by (metis append_take_drop_id drop_all order_refl self_append_conv)
  then show ?thesis ..
qed

section \<open>Properties of the FileCache\<close>

lemmas cache_eval =
  FileCache_set_def FileCache_get_def invalidate_def invalidateAll_def evictLoop.simps
  getOldestKey_def lru_keys_def isStale_def lru_set_def lru_get_def lru_delete_def lru_clear_def
  disposeAll_def dispose_def contentCache_delete_def contentCache_get_def newFileCache_def
  countMiss_def countHit_def runOps_def liveSize_def byteLength_def Let_def

lemma disposeAll_config [simp]: "config (disposeAll vs fc) = config fc"
  unfolding disposeAll_def by (induction vs arbitrary: fc) (simp_all add: dispose_def)

lemma contentCache_delete_config [simp]: "config (contentCache_delete k fc) = config fc"
  by (simp add: contentCache_delete_def split: prod.splits)

lemma evictLoop_config [simp]: "config (evictLoop now sz fc) = config fc"
proof (induction now sz fc rule: evictLoop.induct)
  case (1 now sz fc)
  show ?case
    by (subst evictLoop.simps) (auto simp: "1.IH" split: option.splits)
qed

lemma map_of_filter_key [simp]: "map_of (filter (\<lambda>item. fst item \<noteq> k) c) k = None"
  by (induction c) auto

lemma contentCache_delete_absent [simp]:
  "map_of (contentCache (contentCache_delete k fc)) k = None"
  by (simp add: contentCache_delete_def lru_delete_def)

lemma invalidate_absent [simp]: "map_of (contentCache (invalidate now k fc)) k = None"
  by (simp add: invalidate_def Let_def split: prod.splits)

lemma countMiss_contentCache [simp]: "contentCache (countMiss fc) = contentCache fc"
  by (simp add: countMiss_def)





lemma contentCache_delete_subset:
  "set (contentCache (contentCache_delete k fc)) \<subseteq> set (contentCache fc)"
  by (auto simp: contentCache_delete_def lru_delete_def)

lemma evictLoop_subset:
  "set (contentCache (evictLoop now sz fc)) \<subseteq> set (contentCache fc)"
proof (induction now sz fc rule: evictLoop.induct)
  case (1 now sz fc)
  show ?case
  proof (cases "currentSize fc + int sz > maxSize (config fc) \<and> length (contentCache fc) > 0")
    case False
    then show ?thesis by (subst evictLoop.simps) auto
  next
    case True
    show ?thesis
    proof (cases "getOldestKey now fc")
      case None
      with True show ?thesis by (subst evictLoop.simps) simp
    next
      case (Some k)
      show ?thesis
      proof (cases "k = []")
        case e: True
        with True Some show ?thesis by (subst evictLoop.simps) simp
      next
        case e: False
        from "1.IH" [OF True Some e] contentCache_delete_subset [of k fc]
        have "set (contentCache (evictLoop now sz (contentCache_delete k fc)))
                \<subseteq> set (contentCache fc)" by blast
        with True Some e show ?thesis by (subst evictLoop.simps) simp
      qed
    qed
  qed
qed

text \<open>
  \<^verbatim>\<open>set\<close> with a content larger than the budget adds no entry: what the content cache
  holds afterwards, it held before.
\<close>

lemma FileCache_set_oversized_inserts_nothing:
  assumes "int (byteLength text) > maxSize (config fc)"
  shows "set (contentCache (FileCache_set stat now p text fc)) \<subseteq> set (contentCache fc)"
  using assms evictLoop_subset [of now "byteLength text" fc]
  by (auto simp: FileCache_set_def Let_def split: option.splits)

text \<open>
  C4, at a failing input. The budget is 10 bytes and the cache holds \<^verbatim>\<open>/a\<close>, 5 bytes.
  \<^verbatim>\<open>set\<close> with a content of 11 bytes for \<^verbatim>\<open>/b\<close> stores nothing for \<^verbatim>\<open>/b\<close>, and the
  loop that makes room, which runs before the test for an oversized content, has deleted
  \<^verbatim>\<open>/a\<close>: the content cache is empty and the tracked size is 0.
\<close>

theorem FileCache_set_oversized_evicts:
  "contentCache (FileCache_set [''/a'' \<mapsto> (7, 5), ''/b'' \<mapsto> (8, 11)] 1 ''/a'' ''12345''
       (newFileCache \<lparr>enabled = True, ttl = 60000, maxSize = 10\<rparr>))
     = [(''/a'', \<lparr>content = ''12345'', mtime = 7, entrySize = 5\<rparr>, 1)]
   \<and> currentSize (FileCache_set [''/a'' \<mapsto> (7, 5), ''/b'' \<mapsto> (8, 11)] 1 ''/a'' ''12345''
       (newFileCache \<lparr>enabled = True, ttl = 60000, maxSize = 10\<rparr>)) = 5
   \<and> contentCache (FileCache_set [''/a'' \<mapsto> (7, 5), ''/b'' \<mapsto> (8, 11)] 2 ''/b'' ''12345678901''
       (FileCache_set [''/a'' \<mapsto> (7, 5), ''/b'' \<mapsto> (8, 11)] 1 ''/a'' ''12345''
          (newFileCache \<lparr>enabled = True, ttl = 60000, maxSize = 10\<rparr>))) = []
   \<and> currentSize (FileCache_set [''/a'' \<mapsto> (7, 5), ''/b'' \<mapsto> (8, 11)] 2 ''/b'' ''12345678901''
       (FileCache_set [''/a'' \<mapsto> (7, 5), ''/b'' \<mapsto> (8, 11)] 1 ''/a'' ''12345''
          (newFileCache \<lparr>enabled = True, ttl = 60000, maxSize = 10\<rparr>))) = 0"
  by (simp add: cache_eval)

text \<open>
  C5, at a failing input. The budget is 10 bytes. After \<^verbatim>\<open>set\<close> of 5 bytes for \<^verbatim>\<open>/a\<close> and
  \<^verbatim>\<open>invalidate\<close> of \<^verbatim>\<open>/a\<close> the cache is empty and the tracked size is -5: \<^verbatim>\<open>invalidate\<close>
  subtracts the entry's size and the \<^verbatim>\<open>dispose\<close> callback, run by the deletion, subtracts
  it again. Two more calls of \<^verbatim>\<open>set\<close>, of 10 and of 5 bytes, then leave 15 bytes in the
  cache.
\<close>

theorem FileCache_invalidate_double_decrement:
  "currentSize (runOps [''/a'' \<mapsto> (7, 5), ''/b'' \<mapsto> (8, 10), ''/c'' \<mapsto> (9, 5)]
       (newFileCache \<lparr>enabled = True, ttl = 60000, maxSize = 10\<rparr>)
       [(1, Set ''/a'' ''12345''), (2, Invalidate ''/a'')]) = - 5
   \<and> liveSize (runOps [''/a'' \<mapsto> (7, 5), ''/b'' \<mapsto> (8, 10), ''/c'' \<mapsto> (9, 5)]
       (newFileCache \<lparr>enabled = True, ttl = 60000, maxSize = 10\<rparr>)
       [(1, Set ''/a'' ''12345''), (2, Invalidate ''/a'')]) = 0
   \<and> liveSize (runOps [''/a'' \<mapsto> (7, 5), ''/b'' \<mapsto> (8, 10), ''/c'' \<mapsto> (9, 5)]
       (newFileCache \<lparr>enabled = True, ttl = 60000, maxSize = 10\<rparr>)
       [(1, Set ''/a'' ''12345''), (2, Invalidate ''/a''),
        (3, Set ''/b'' ''1234567890''), (4, Set ''/c'' ''12345'')]) = 15"
  by (simp add: cache_eval)




end
